theory Spec2Isabelle
  imports Complex_Main "HOL-Library.Multiset"
begin

section \<open>Numbers\<close>

text \<open>
  The engines compute on JavaScript numbers. They are embedded as mathematical reals:
  every arithmetic operation is the exact one, so the development speaks about the
  algorithms on finite inputs, not about IEEE rounding, overflow or NaN.
  \<open>Math.round\<close> rounds half up, \<open>Math.pow\<close> is only ever applied to non-negative bases.
\<close>

definition Math_round :: "real \<Rightarrow> int" where
  "Math_round x = \<lfloor>x + 1 / 2\<rfloor>"

text \<open>\<open>Math.pow(x, y)\<close> for a base \<open>x \<ge> 0\<close>: \<open>pow(x, 0) = 1\<close> also for \<open>x = 0\<close>.\<close>

definition Math_pow :: "real \<Rightarrow> real \<Rightarrow> real" where
  "Math_pow x y = (if y = 0 then 1 else x powr y)"

section \<open>Fuzzy logic engine: membership model\<close>

record TrapezoidalSet =
  name :: string
  points :: "real \<times> real \<times> real \<times> real"

definition calculateMembership :: "real \<Rightarrow> TrapezoidalSet \<Rightarrow> real" where
  "calculateMembership v s =
     (case points s of (a, b, c, d) \<Rightarrow>
        if v \<le> a \<or> v \<ge> d then 0
        else if v \<ge> b \<and> v \<le> c then 1
        else if v > a \<and> v < b then (v - a) / (b - a)
        else if v > c \<and> v < d then (d - v) / (d - c)
        else 0)"

definition mkSet :: "string \<Rightarrow> real \<Rightarrow> real \<Rightarrow> real \<Rightarrow> real \<Rightarrow> TrapezoidalSet" where
  "mkSet n a b c d = \<lparr>name = n, points = (a, b, c, d)\<rparr>"

definition TURBIDITY_SETS :: "TrapezoidalSet list" where
  "TURBIDITY_SETS =
     [mkSet ''muy_baja'' 0 0 5 15,
      mkSet ''baja'' 10 20 40 60,
      mkSet ''media'' 50 80 150 200,
      mkSet ''alta'' 150 250 400 500,
      mkSet ''muy_alta'' 400 600 1000 1000]"

definition PH_SETS :: "TrapezoidalSet list" where
  "PH_SETS =
     [mkSet ''muy_acido'' 0 0 4 5.5,
      mkSet ''acido'' 5 5.5 6 6.5,
      mkSet ''neutro'' 6.2 6.8 7.5 8.2,
      mkSet ''alcalino'' 7.8 8.5 9 9.5,
      mkSet ''muy_alcalino'' 9 10 14 14]"

definition TEMPERATURE_SETS :: "TrapezoidalSet list" where
  "TEMPERATURE_SETS =
     [mkSet ''fria'' 0 0 10 18,
      mkSet ''normal'' 15 20 25 28,
      mkSet ''calida'' 25 30 40 40]"

definition DOSE_SETS :: "TrapezoidalSet list" where
  "DOSE_SETS =
     [mkSet ''muy_baja'' 0 0 5 12,
      mkSet ''baja'' 8 15 22 28,
      mkSet ''media'' 25 35 45 55,
      mkSet ''alta'' 50 60 75 85,
      mkSet ''muy_alta'' 80 90 100 100]"

definition TIME_SETS :: "TrapezoidalSet list" where
  "TIME_SETS =
     [mkSet ''muy_corto'' 0 0 8 12,
      mkSet ''corto'' 10 14 18 22,
      mkSet ''medio'' 20 25 32 38,
      mkSet ''largo'' 35 42 50 55,
      mkSet ''muy_largo'' 50 55 60 60]"

text \<open>\<open>getMemberships\<close>: a \<open>Map\<close> filled in catalogue order (a later \<open>set\<close> of the same
  name overwrites).\<close>

definition getMemberships :: "real \<Rightarrow> TrapezoidalSet list \<Rightarrow> (string \<rightharpoonup> real)" where
  "getMemberships v sets =
     fold (\<lambda>s m. m(name s \<mapsto> calculateMembership v s)) sets Map.empty"

text \<open>\<open>map.get(k) || 0\<close>: a missing key (and a stored 0) reads as 0.\<close>

definition getOr0 :: "(string \<rightharpoonup> real) \<Rightarrow> string \<Rightarrow> real" where
  "getOr0 m k = (case m k of None \<Rightarrow> 0 | Some v \<Rightarrow> v)"

section \<open>Fuzzy logic engine: rule base\<close>

datatype PhCorrection = none | slight | moderate | intense

datatype RiskLevel = optimal | caution | critical

record RuleConditions =
  cond_turbidity :: "string option"
  cond_ph :: "string option"
  cond_temperature :: "string option"

record RuleOutputs =
  out_dose :: string
  out_time :: string
  out_phCorrection :: PhCorrection

record FuzzyRule =
  rule_id :: nat
  rule_name :: string
  conditions :: RuleConditions
  outputs :: RuleOutputs
  baseCost :: real

definition mkRule ::
  "nat \<Rightarrow> string \<Rightarrow> string option \<Rightarrow> string option \<Rightarrow> string option \<Rightarrow>
   string \<Rightarrow> string \<Rightarrow> PhCorrection \<Rightarrow> real \<Rightarrow> FuzzyRule" where
  "mkRule i n ct cp cte d t p bc =
     \<lparr>rule_id = i, rule_name = n,
      conditions = \<lparr>cond_turbidity = ct, cond_ph = cp, cond_temperature = cte\<rparr>,
      outputs = \<lparr>out_dose = d, out_time = t, out_phCorrection = p\<rparr>,
      baseCost = bc\<rparr>"

text \<open>The rule base, in source order (rule names are written without their accents).\<close>

definition FUZZY_RULES :: "FuzzyRule list" where
  "FUZZY_RULES =
     [
      mkRule 1 ''Agua cristalina - Condiciones optimas''
        (Some ''muy_baja'') (Some ''neutro'') (None)
        ''muy_baja'' ''muy_corto'' none 0.05,
      mkRule 2 ''Agua limpia - pH acido leve''
        (Some ''muy_baja'') (Some ''acido'') (None)
        ''baja'' ''corto'' slight 0.08,
      mkRule 3 ''Agua limpia - pH alcalino leve''
        (Some ''muy_baja'') (Some ''alcalino'') (None)
        ''baja'' ''corto'' slight 0.08,
      mkRule 4 ''Agua baja turbidez - Condiciones normales''
        (Some ''baja'') (Some ''neutro'') (None)
        ''baja'' ''corto'' none 0.10,
      mkRule 5 ''Turbidez media - pH neutro optimo''
        (Some ''media'') (Some ''neutro'') (None)
        ''media'' ''medio'' none 0.18,
      mkRule 6 ''Turbidez media - pH acido''
        (Some ''media'') (Some ''acido'') (None)
        ''media'' ''medio'' moderate 0.22,
      mkRule 7 ''Turbidez media - pH alcalino''
        (Some ''media'') (Some ''alcalino'') (None)
        ''alta'' ''medio'' slight 0.24,
      mkRule 8 ''Turbidez media - Agua fria''
        (Some ''media'') (None) (Some ''fria'')
        ''alta'' ''largo'' none 0.25,
      mkRule 9 ''Alta turbidez - pH neutro''
        (Some ''alta'') (Some ''neutro'') (None)
        ''alta'' ''largo'' none 0.35,
      mkRule 10 ''Alta turbidez - pH acido''
        (Some ''alta'') (Some ''acido'') (None)
        ''alta'' ''largo'' moderate 0.42,
      mkRule 11 ''Alta turbidez - pH alcalino''
        (Some ''alta'') (Some ''alcalino'') (None)
        ''muy_alta'' ''largo'' moderate 0.45,
      mkRule 12 ''Alta turbidez - Agua fria''
        (Some ''alta'') (None) (Some ''fria'')
        ''muy_alta'' ''muy_largo'' none 0.48,
      mkRule 13 ''Emergencia - Turbidez extrema, pH neutro''
        (Some ''muy_alta'') (Some ''neutro'') (None)
        ''muy_alta'' ''muy_largo'' none 0.55,
      mkRule 14 ''Emergencia - Turbidez extrema, pH acido severo''
        (Some ''muy_alta'') (Some ''muy_acido'') (None)
        ''muy_alta'' ''muy_largo'' intense 0.75,
      mkRule 15 ''Emergencia - Turbidez extrema, pH alcalino severo''
        (Some ''muy_alta'') (Some ''muy_alcalino'') (None)
        ''muy_alta'' ''muy_largo'' intense 0.72,
      mkRule 16 ''Vertido acido - Turbidez baja''
        (Some ''baja'') (Some ''muy_acido'') (None)
        ''media'' ''medio'' intense 0.38,
      mkRule 17 ''Vertido alcalino - Turbidez baja''
        (Some ''baja'') (Some ''muy_alcalino'') (None)
        ''media'' ''medio'' intense 0.35,
      mkRule 18 ''Vertido acido - Turbidez media''
        (Some ''media'') (Some ''muy_acido'') (None)
        ''alta'' ''largo'' intense 0.52,
      mkRule 19 ''Agua caliente - Turbidez baja''
        (Some ''baja'') (None) (Some ''calida'')
        ''baja'' ''muy_corto'' none 0.08,
      mkRule 20 ''Agua caliente - Turbidez alta''
        (Some ''alta'') (None) (Some ''calida'')
        ''media'' ''medio'' none 0.28]"

section \<open>Fuzzy logic engine: inference\<close>

record WaterInputs =
  turbidity :: real
  ph :: real
  temperature :: real

record RuleActivation =
  act_id :: nat
  act_name :: string
  firingStrength :: real
  act_conditions :: RuleConditions
  act_outputs :: RuleOutputs

text \<open>
  \<open>FuzzyOutputs\<close> without its \<open>explanation\<close> string, which is built from the other
  values by number formatting and feeds back into none of them.
\<close>

record FuzzyOutputs =
  coagulantDose :: real
  flocculationTime :: int
  phCorrection :: PhCorrection
  phCorrectionAmount :: real
  operationalCost :: real
  qualityScore :: int
  riskLevel :: RiskLevel
  efficiency :: int
  ruleActivations :: "RuleActivation list"

definition defuzzify :: "(string \<rightharpoonup> real) \<Rightarrow> TrapezoidalSet list \<Rightarrow> real" where
  "defuzzify activations sets =
     (case fold (\<lambda>s (numerator, denominator).
                   let activation = getOr0 activations (name s) in
                   if activation > 0 then
                     (case points s of (a, b, c, d) \<Rightarrow>
                        let center = (b + c) / 2 in
                        (numerator + center * activation, denominator + activation))
                   else (numerator, denominator))
                sets (0, 0) of
        (numerator, denominator) \<Rightarrow>
          if denominator > 0 then numerator / denominator else 0)"

text \<open>The mutable locals of the rule loop of \<open>runFuzzyInference\<close>.\<close>

record InferState =
  doseActivations :: "string \<rightharpoonup> real"
  timeActivations :: "string \<rightharpoonup> real"
  st_ruleActivations :: "RuleActivation list"
  totalCost :: real
  totalWeight :: real
  phCorrectionLevel :: PhCorrection
  maxPhCorrectionWeight :: real

definition initState :: InferState where
  "initState =
     \<lparr>doseActivations = Map.empty, timeActivations = Map.empty, st_ruleActivations = [],
      totalCost = 0, totalWeight = 0, phCorrectionLevel = none, maxPhCorrectionWeight = 0\<rparr>"

text \<open>\<open>if (rule.conditions.x) conditions.push(memberships.get(rule.conditions.x) || 0)\<close>:
  an absent condition, and an empty set name, pushes nothing.\<close>

definition pushCondition :: "(string \<rightharpoonup> real) \<Rightarrow> string option \<Rightarrow> real list" where
  "pushCondition memberships c =
     (case c of None \<Rightarrow> [] | Some n \<Rightarrow> if n = [] then [] else [getOr0 memberships n])"

definition ruleConditionDegrees ::
  "(string \<rightharpoonup> real) \<Rightarrow> (string \<rightharpoonup> real) \<Rightarrow> (string \<rightharpoonup> real) \<Rightarrow> FuzzyRule \<Rightarrow> real list" where
  "ruleConditionDegrees tm pm tem rule =
     pushCondition tm (cond_turbidity (conditions rule)) @
     pushCondition pm (cond_ph (conditions rule)) @
     pushCondition tem (cond_temperature (conditions rule))"

text \<open>\<open>conditions.length > 0 ? Math.min(...conditions) : 0\<close>\<close>

definition ruleActivation ::
  "(string \<rightharpoonup> real) \<Rightarrow> (string \<rightharpoonup> real) \<Rightarrow> (string \<rightharpoonup> real) \<Rightarrow> FuzzyRule \<Rightarrow> real" where
  "ruleActivation tm pm tem rule =
     (case ruleConditionDegrees tm pm tem rule of
        [] \<Rightarrow> 0
      | c # cs \<Rightarrow> fold min cs c)"

text \<open>One pass of the loop body over a rule.\<close>

definition applyRule ::
  "(string \<rightharpoonup> real) \<Rightarrow> (string \<rightharpoonup> real) \<Rightarrow> (string \<rightharpoonup> real) \<Rightarrow>
   FuzzyRule \<Rightarrow> InferState \<Rightarrow> InferState" where
  "applyRule tm pm tem rule st =
     (let activation = ruleActivation tm pm tem rule in
      if activation > 0 then
        let currentDose = getOr0 (doseActivations st) (out_dose (outputs rule));
            currentTime = getOr0 (timeActivations st) (out_time (outputs rule));
            dominant = activation > maxPhCorrectionWeight st
        in \<lparr>doseActivations =
              (doseActivations st)(out_dose (outputs rule) \<mapsto> max currentDose activation),
            timeActivations =
              (timeActivations st)(out_time (outputs rule) \<mapsto> max currentTime activation),
            st_ruleActivations = st_ruleActivations st @
              [\<lparr>act_id = rule_id rule, act_name = rule_name rule,
                firingStrength = activation,
                act_conditions = conditions rule, act_outputs = outputs rule\<rparr>],
            totalCost = totalCost st + baseCost rule * activation,
            totalWeight = totalWeight st + activation,
            phCorrectionLevel =
              (if dominant then out_phCorrection (outputs rule) else phCorrectionLevel st),
            maxPhCorrectionWeight =
              (if dominant then activation else maxPhCorrectionWeight st)\<rparr>
      else st)"

definition evalRules ::
  "(string \<rightharpoonup> real) \<Rightarrow> (string \<rightharpoonup> real) \<Rightarrow> (string \<rightharpoonup> real) \<Rightarrow>
   FuzzyRule list \<Rightarrow> InferState" where
  "evalRules tm pm tem rules = fold (applyRule tm pm tem) rules initState"

text \<open>
  The inference over an arbitrary rule table; \<open>runFuzzyInference\<close> is its instance at
  \<open>FUZZY_RULES\<close>. The final \<open>sort\<close> is stable and descending in \<open>firingStrength\<close>.
\<close>

definition inferWith :: "FuzzyRule list \<Rightarrow> WaterInputs \<Rightarrow> FuzzyOutputs" where
  "inferWith rules inputs =
     (let turbidityMemberships = getMemberships (turbidity inputs) TURBIDITY_SETS;
          phMemberships = getMemberships (ph inputs) PH_SETS;
          tempMemberships = getMemberships (temperature inputs) TEMPERATURE_SETS;
          st = evalRules turbidityMemberships phMemberships tempMemberships rules;
          dose = defuzzify (doseActivations st) DOSE_SETS;
          ftime = defuzzify (timeActivations st) TIME_SETS;
          cost = (if totalWeight st > 0 then totalCost st / totalWeight st else 0.10);
          phDeviation = \<bar>ph inputs - 7.0\<bar>;
          amount = (case phCorrectionLevel st of
                      none \<Rightarrow> 0
                    | slight \<Rightarrow> phDeviation * 5
                    | moderate \<Rightarrow> phDeviation * 12
                    | intense \<Rightarrow> phDeviation * 25);
          turbidityFactor = max 0 (100 - turbidity inputs / 10);
          phFactor = max 0 (100 - \<bar>ph inputs - 7\<bar> * 15);
          processFactor = (if dose > 0 then min 100 ((dose / turbidity inputs) * 500) else 50);
          quality = Math_round (turbidityFactor * 0.5 + phFactor * 0.3 + processFactor * 0.2);
          risk = (if turbidity inputs > 400 \<or> ph inputs < 5.5 \<or> ph inputs > 9.5 then critical
                  else if turbidity inputs > 150 \<or> ph inputs < 6.2 \<or> ph inputs > 8.5 then caution
                  else optimal);
          eff = min 100 (max 20
                  (100 - turbidity inputs / 20
                   + (if ph inputs \<ge> 6.5 \<and> ph inputs \<le> 8.0 then 20 else 0)
                   - (if temperature inputs < 15 then 10 else 0)))
      in \<lparr>coagulantDose = of_int (Math_round (dose * 10)) / 10,
          flocculationTime = Math_round ftime,
          phCorrection = phCorrectionLevel st,
          phCorrectionAmount = of_int (Math_round (amount * 10)) / 10,
          operationalCost = of_int (Math_round (cost * 1000)) / 1000,
          qualityScore = max 0 (min 100 quality),
          riskLevel = risk,
          efficiency = Math_round eff,
          ruleActivations = sort_key (\<lambda>a. - firingStrength a) (st_ruleActivations st)\<rparr>)"

definition runFuzzyInference :: "WaterInputs \<Rightarrow> FuzzyOutputs" where
  "runFuzzyInference inputs = inferWith FUZZY_RULES inputs"

section \<open>Fuzzy C-Means solver\<close>

text \<open>
  \<open>clusterCount\<close> and \<open>maxIterations\<close> are natural numbers. The real-number reading of
  \<open>Math.pow\<close> is the source's for a fuzziness above 0 and different from 1, which the
  configuration's \<open>m > 1\<close> gives.
\<close>

record DataPoint =
  point_id :: string
  features :: "real list"
  label :: "string option"
  timestamp :: "int option"
  memberships :: "real list option"
  color :: "string option"

record FCMConfig =
  clusterCount :: nat
  fuzziness :: real
  maxIterations :: nat
  tolerance :: real
  trackHistory :: bool

record IterationState =
  iteration :: nat
  it_centroids :: "real list list"
  it_membershipMatrix :: "real list list"
  it_convergenceError :: real
  objectiveFunction :: real

record FCMResult =
  centroids :: "real list list"
  membershipMatrix :: "real list list"
  iterationHistory :: "IterationState list"
  convergenceError :: real
  iterationCount :: nat
  clusterAssignments :: "int list"
  converged :: bool

text \<open>The three \<open>throw new Error(...)\<close> of the module, with the numbers of their messages.\<close>

datatype error =
    NoData
  | TooManyClusters nat nat
  | DimensionMismatch nat nat

definition DEFAULT_FCM_CONFIG :: FCMConfig where
  "DEFAULT_FCM_CONFIG =
     \<lparr>clusterCount = 3, fuzziness = 2, maxIterations = 100, tolerance = 0.001,
      trackHistory = True\<rparr>"

definition euclideanDistance :: "real list \<Rightarrow> real list \<Rightarrow> error + real" where
  "euclideanDistance p1 p2 =
     (if length p1 \<noteq> length p2 then Inl (DimensionMismatch (length p1) (length p2))
      else Inr (sqrt (fold (\<lambda>i sum. sum + (p1 ! i - p2 ! i)\<^sup>2) [0..<length p1] 0)))"

text \<open>
  \<open>initializeCentroids\<close>: \<open>shuffled\<close> stands for the array that
  \<open>[...data].sort(() => Math.random() - 0.5)\<close> leaves, a rearrangement of \<open>data\<close> chosen
  by the random source; each centroid is a copy of a feature vector.
\<close>

definition initializeCentroids :: "DataPoint list \<Rightarrow> nat \<Rightarrow> real list list" where
  "initializeCentroids shuffled k = map features (take k shuffled)"

text \<open>\<open>centroids.map(c => euclideanDistance(x, c))\<close>, stopping at the first throw.\<close>

fun distancesTo :: "real list \<Rightarrow> real list list \<Rightarrow> error + real list" where
  "distancesTo x [] = Inr []"
| "distancesTo x (c # cs) =
     (case euclideanDistance x c of
        Inl e \<Rightarrow> Inl e
      | Inr d \<Rightarrow> (case distancesTo x cs of Inl e \<Rightarrow> Inl e | Inr ds \<Rightarrow> Inr (d # ds)))"

text \<open>The loop over \<open>l\<close>: \<open>None\<close> is the \<open>Infinity\<close> set at a zero distance.\<close>

fun sumRatiosLoop :: "real list \<Rightarrow> real \<Rightarrow> nat \<Rightarrow> nat list \<Rightarrow> real \<Rightarrow> real option" where
  "sumRatiosLoop distances m j [] sumRatios = Some sumRatios"
| "sumRatiosLoop distances m j (l # ls) sumRatios =
     (if distances ! l = 0 then None
      else sumRatiosLoop distances m j ls
             (sumRatios + Math_pow (distances ! j / distances ! l) (2 / (m - 1))))"

text \<open>The loop over \<open>j\<close> on one row, with its \<open>break\<close> at a zero distance.\<close>

fun rowLoop :: "real list \<Rightarrow> real \<Rightarrow> nat \<Rightarrow> nat list \<Rightarrow> real list \<Rightarrow> real list" where
  "rowLoop distances m k [] row = row"
| "rowLoop distances m k (j # js) row =
     (if distances ! j = 0 then (replicate k 0)[j := 1]
      else rowLoop distances m k js
             (row[j := (case sumRatiosLoop distances m j [0..<k] 0 of
                          None \<Rightarrow> 0
                        | Some sumRatios \<Rightarrow> 1 / sumRatios)]))"

definition normalizeRow :: "real list \<Rightarrow> real list" where
  "normalizeRow row =
     (let sum = fold (\<lambda>b a. a + b) row 0 in
      if sum > 0 then map (\<lambda>v. v / sum) row else row)"

text \<open>The loop over the points \<open>i\<close> of the membership update.\<close>

fun membershipLoop ::
  "DataPoint list \<Rightarrow> real list list \<Rightarrow> real \<Rightarrow> nat \<Rightarrow> nat list \<Rightarrow> real list list \<Rightarrow>
   error + real list list" where
  "membershipLoop data cs m k [] ms = Inr ms"
| "membershipLoop data cs m k (i # is) ms =
     (case distancesTo (features (data ! i)) cs of
        Inl e \<Rightarrow> Inl e
      | Inr distances \<Rightarrow>
          membershipLoop data cs m k is
            (ms[i := normalizeRow (rowLoop distances m k [0..<k] (ms ! i))]))"

definition newCentroid ::
  "DataPoint list \<Rightarrow> real list list \<Rightarrow> real \<Rightarrow> nat \<Rightarrow> nat \<Rightarrow> real list" where
  "newCentroid data ms m dimensionCount j =
     (case fold (\<lambda>i (newCentroid, weightSum).
                   let weight = Math_pow (ms ! i ! j) m in
                   (map (\<lambda>d. newCentroid ! d + weight * features (data ! i) ! d)
                        [0..<dimensionCount],
                    weightSum + weight))
                [0..<length data] (replicate dimensionCount 0, 0) of
        (newCentroid, weightSum) \<Rightarrow>
          map (\<lambda>v. if weightSum > 0 then v / weightSum else v) newCentroid)"

definition maxChangeOf :: "real list list \<Rightarrow> real list list \<Rightarrow> nat \<Rightarrow> nat \<Rightarrow> real" where
  "maxChangeOf ms prevMemberships n k =
     fold (\<lambda>i maxChange.
             fold (\<lambda>j maxChange. max maxChange \<bar>ms ! i ! j - prevMemberships ! i ! j\<bar>)
                  [0..<k] maxChange)
          [0..<n] 0"

fun objectiveLoop ::
  "DataPoint list \<Rightarrow> real list list \<Rightarrow> real list list \<Rightarrow> real \<Rightarrow> (nat \<times> nat) list \<Rightarrow> real \<Rightarrow>
   error + real" where
  "objectiveLoop data cs ms m [] J = Inr J"
| "objectiveLoop data cs ms m ((i, j) # ijs) J =
     (case euclideanDistance (features (data ! i)) (cs ! j) of
        Inl e \<Rightarrow> Inl e
      | Inr distance \<Rightarrow>
          objectiveLoop data cs ms m ijs (J + Math_pow (ms ! i ! j) m * distance\<^sup>2))"

definition calculateObjectiveFunction ::
  "DataPoint list \<Rightarrow> real list list \<Rightarrow> real list list \<Rightarrow> real \<Rightarrow> error + real" where
  "calculateObjectiveFunction data cs ms m =
     objectiveLoop data cs ms m (List.product [0..<length data] [0..<length cs]) 0"

text \<open>The variables of the main loop of \<open>runFCM\<close>.\<close>

record LoopState =
  ls_centroids :: "real list list"
  ls_memberships :: "real list list"
  ls_iterationHistory :: "IterationState list"
  ls_converged :: bool
  ls_iteration :: nat
  ls_prevMemberships :: "real list list"

text \<open>One pass of the \<open>while\<close> body.\<close>

definition fcmStep :: "DataPoint list \<Rightarrow> FCMConfig \<Rightarrow> LoopState \<Rightarrow> error + LoopState" where
  "fcmStep data cfg st =
     (let k = clusterCount cfg; m = fuzziness cfg in
      case membershipLoop data (ls_centroids st) m k [0..<length data] (ls_memberships st) of
        Inl e \<Rightarrow> Inl e
      | Inr ms \<Rightarrow>
          (let dimensionCount = length (features (data ! 0));
               cs = map (newCentroid data ms m dimensionCount) [0..<k];
               maxChange = maxChangeOf ms (ls_prevMemberships st) (length data) k;
               history =
                 (if trackHistory cfg then
                    (case calculateObjectiveFunction data cs ms m of
                       Inl e \<Rightarrow> Inl e
                     | Inr J \<Rightarrow>
                         Inr (ls_iterationHistory st @
                              [\<lparr>iteration = ls_iteration st, it_centroids = cs,
                                it_membershipMatrix = ms, it_convergenceError = maxChange,
                                objectiveFunction = J\<rparr>]))
                  else Inr (ls_iterationHistory st))
           in (case history of
                 Inl e \<Rightarrow> Inl e
               | Inr h \<Rightarrow>
                   Inr \<lparr>ls_centroids = cs, ls_memberships = ms, ls_iterationHistory = h,
                        ls_converged = (maxChange < tolerance cfg),
                        ls_iteration = Suc (ls_iteration st),
                        ls_prevMemberships = ms\<rparr>)))"

text \<open>The \<open>while\<close> loop; it ends because each pass adds one to \<open>iteration\<close>.\<close>

function fcmLoop :: "DataPoint list \<Rightarrow> FCMConfig \<Rightarrow> LoopState \<Rightarrow> error + LoopState" where
  "fcmLoop data cfg st =
     (if ls_iteration st < maxIterations cfg \<and> \<not> ls_converged st then
        (case fcmStep data cfg st of
           Inl e \<Rightarrow> Inl e
         | Inr st' \<Rightarrow> fcmLoop data cfg st')
      else Inr st)"
  by pat_completeness auto
termination
  by (relation "measure (\<lambda>(data, cfg, st). maxIterations cfg - ls_iteration st)")
     (auto simp: fcmStep_def Let_def split: sum.splits if_splits)

declare fcmLoop.simps [simp del]

text \<open>\<open>row.indexOf(v)\<close>: the first index holding \<open>v\<close>, or \<open>-1\<close>.\<close>

fun indexOf :: "real list \<Rightarrow> real \<Rightarrow> int" where
  "indexOf [] v = -1"
| "indexOf (x # xs) v =
     (if x = v then 0 else (let r = indexOf xs v in if r < 0 then -1 else r + 1))"

text \<open>\<open>row.indexOf(Math.max(...row))\<close>; on the empty row the maximum is \<open>-Infinity\<close>,
  which the row does not hold.\<close>

definition argmaxRow :: "real list \<Rightarrow> int" where
  "argmaxRow row = (case row of [] \<Rightarrow> -1 | x # xs \<Rightarrow> indexOf row (fold max xs x))"

definition runFCM :: "DataPoint list \<Rightarrow> FCMConfig \<Rightarrow> DataPoint list \<Rightarrow> error + FCMResult" where
  "runFCM data cfg shuffled =
     (let k = clusterCount cfg in
      if length data = 0 then Inl NoData
      else if k > length data then Inl (TooManyClusters k (length data))
      else
        let ms0 = map (\<lambda>_. replicate k (1 / real k)) data in
        case fcmLoop data cfg
               \<lparr>ls_centroids = initializeCentroids shuffled k, ls_memberships = ms0,
                ls_iterationHistory = [], ls_converged = False, ls_iteration = 0,
                ls_prevMemberships = ms0\<rparr> of
          Inl e \<Rightarrow> Inl e
        | Inr st \<Rightarrow>
            let finalError =
                  (if trackHistory cfg \<and> length (ls_iterationHistory st) > 0
                   then it_convergenceError (last (ls_iterationHistory st)) else 0)
            in Inr \<lparr>centroids = ls_centroids st,
                    membershipMatrix = ls_memberships st,
                    iterationHistory = ls_iterationHistory st,
                    convergenceError = finalError,
                    iterationCount = ls_iteration st,
                    clusterAssignments = map argmaxRow (ls_memberships st),
                    converged = ls_converged st\<rparr>)"

section \<open>Cluster analytics\<close>

datatype RiskCategory = low | medium | high | critical_risk

text \<open>
  \<open>RiskAnalysis\<close> without its \<open>description\<close> string (number formatting of the row); the
  recommendations are written without accents and pictographs.
\<close>

record RiskAnalysis =
  riskScore :: int
  riskCategory :: RiskCategory
  dominantCluster :: int
  recommendation :: string

text \<open>\<open>memberships[i] || 0\<close>: an index outside the array reads as 0.\<close>

definition atOr0 :: "real list \<Rightarrow> int \<Rightarrow> real" where
  "atOr0 xs i = (if 0 \<le> i \<and> i < int (length xs) then xs ! nat i else 0)"

definition analyzeRisk :: "real list \<Rightarrow> string list \<Rightarrow> RiskAnalysis" where
  "analyzeRisk ms clusterNames =
     (let failureIndex = int (length ms) - 1;
          alertIndex = (if length ms > 2 then int (length ms) - 2 else 0);
          score = Math_round (atOr0 ms alertIndex * 40 + atOr0 ms failureIndex * 100);
          (category, recommend) =
            (if score < 20 then
               (low, ''Operacion normal. Continuar monitoreo estandar.'')
             else if score < 45 then
               (medium, ''Programar inspeccion preventiva en las proximas semanas.'')
             else if score < 70 then
               (high, ''Requiere inspeccion urgente. Considerar reducir carga operativa.'')
             else
               (critical_risk,
                ''ACCION INMEDIATA: Programar mantenimiento correctivo antes de falla.''))
      in \<lparr>riskScore = min 100 score,
          riskCategory = category,
          dominantCluster = argmaxRow ms,
          recommendation = recommend\<rparr>)"

section \<open>Fuzzy C-Means solver on an explicit store\<close>





















section \<open>Quantities the properties speak about\<close>

text \<open>The local \<open>coagulantDose\<close> of \<open>runFuzzyInference\<close>: the defuzzified dose before it
  is rounded to one decimal for the result.\<close>

definition defuzzifiedDose :: "WaterInputs \<Rightarrow> real" where
  "defuzzifiedDose inputs =
     defuzzify
       (doseActivations
          (evalRules (getMemberships (turbidity inputs) TURBIDITY_SETS)
                     (getMemberships (ph inputs) PH_SETS)
                     (getMemberships (temperature inputs) TEMPERATURE_SETS)
                     FUZZY_RULES))
       DOSE_SETS"

text \<open>The local \<open>activation\<close> of the rule loop, for the memberships of given inputs.\<close>

definition firingStrengthOf :: "WaterInputs \<Rightarrow> FuzzyRule \<Rightarrow> real" where
  "firingStrengthOf inputs rule =
     ruleActivation (getMemberships (turbidity inputs) TURBIDITY_SETS)
                    (getMemberships (ph inputs) PH_SETS)
                    (getMemberships (temperature inputs) TEMPERATURE_SETS) rule"

text \<open>The membership degrees of the conditions a rule has, in the order the loop pushes them.\<close>

definition presentDegrees :: "WaterInputs \<Rightarrow> FuzzyRule \<Rightarrow> real list" where
  "presentDegrees inputs rule =
     ruleConditionDegrees (getMemberships (turbidity inputs) TURBIDITY_SETS)
                          (getMemberships (ph inputs) PH_SETS)
                          (getMemberships (temperature inputs) TEMPERATURE_SETS) rule"

text \<open>
  Position \<open>i\<close> is dominant in a list of firing strengths: the rule fired, it is strictly
  stronger than every rule before it, and no rule after it is stronger.
\<close>

definition dominantAt :: "real list \<Rightarrow> nat \<Rightarrow> bool" where
  "dominantAt s i \<longleftrightarrow>
     i < length s \<and> s ! i > 0 \<and> (\<forall>j < i. s ! j < s ! i) \<and> (\<forall>j < length s. s ! j \<le> s ! i)"

text \<open>The defuzzified dose along the slice pH 7, 22 degrees.\<close>

definition sliceDose :: "real \<Rightarrow> real" where
  "sliceDose t = defuzzifiedDose \<lparr>turbidity = t, ph = 7, temperature = 22\<rparr>"

section \<open>Predicates of the solver's properties\<close>


definition newMembership :: "real list \<Rightarrow> real \<Rightarrow> nat \<Rightarrow> nat \<Rightarrow> real" where
  "newMembership ds m k j =
     (case sumRatiosLoop ds m j [0..<k] 0 of None \<Rightarrow> 0 | Some sumRatios \<Rightarrow> 1 / sumRatios)"



text \<open>All feature vectors and all centroids have one dimension \<open>d\<close>.\<close>

definition uniformDim :: "nat \<Rightarrow> DataPoint list \<Rightarrow> bool" where
  "uniformDim d data \<longleftrightarrow> (\<forall>p \<in> set data. length (features p) = d)"

definition mkPoint :: "string \<Rightarrow> real list \<Rightarrow> DataPoint" where
  "mkPoint i fs =
     \<lparr>point_id = i, features = fs, label = None, timestamp = None, memberships = None,
      color = None\<rparr>"




text \<open>A division that records a zero divisor, and \<open>calculateMembership\<close> with its two
  divisions replaced by it.\<close>

definition checkedDiv :: "real \<Rightarrow> real \<Rightarrow> real option" where
  "checkedDiv x y = (if y = 0 then None else Some (x / y))"

definition calculateMembershipChecked :: "real \<Rightarrow> TrapezoidalSet \<Rightarrow> real option" where
  "calculateMembershipChecked v s =
     (case points s of (a, b, c, d) \<Rightarrow>
        if v \<le> a \<or> v \<ge> d then Some 0
        else if v \<ge> b \<and> v \<le> c then Some 1
        else if v > a \<and> v < b then checkedDiv (v - a) (b - a)
        else if v > c \<and> v < d then checkedDiv (d - v) (d - c)
        else Some 0)"

text \<open>The state after at least one pass with history: the last entry is the pass just
  made, and the convergence flag was decided on its error.\<close>

definition historyOk :: "FCMConfig \<Rightarrow> LoopState \<Rightarrow> bool" where
  "historyOk cfg st \<longleftrightarrow>
     (ls_iteration st > 0 \<longrightarrow>
        ls_iterationHistory st \<noteq> [] \<and>
        it_membershipMatrix (last (ls_iterationHistory st)) = ls_memberships st \<and>
        ls_converged st = (it_convergenceError (last (ls_iterationHistory st)) < tolerance cfg))"

section \<open>Membership model: properties\<close>

lemma calculateMembership_range:
  assumes "points s = (a, b, c, d)" "a \<le> b" "b \<le> c" "c \<le> d"
  shows "0 \<le> calculateMembership v s \<and> calculateMembership v s \<le> 1"
  using assms by (auto simp: calculateMembership_def divide_simps)

text \<open>
  C4. A set with \<open>a = b\<close> is meant to jump to full membership at \<open>value = a\<close>. The first
  guard of \<open>calculateMembership\<close> (\<open>value <= a\<close>) answers before the plateau test: at
  turbidity 0 the left shoulder \<open>muy_baja = [0, 0, 5, 15]\<close> of the catalogue has
  membership 0, not 1.
\<close>

theorem calculateMembership_left_shoulder:
  "calculateMembership 0 (mkSet ''muy_baja'' 0 0 5 15) = 0
   \<and> mkSet ''muy_baja'' 0 0 5 15 \<in> set TURBIDITY_SETS"
  by (simp add: calculateMembership_def mkSet_def TURBIDITY_SETS_def)

text \<open>The other half of C4 holds: each ramp is entered strictly inside its edge,
  so neither division has a zero divisor, on any set.\<close>

lemma calculateMembership_never_divides_by_zero:
  "calculateMembershipChecked v s = Some (calculateMembership v s)"
  by (auto simp: calculateMembershipChecked_def calculateMembership_def checkedDiv_def
           split: prod.splits)

text \<open>
  C5, as the code has it. For points \<open>a \<le> b \<le> c \<le> d\<close> and every value the membership
  lies in \<open>[0, 1]\<close>; it is 0 at the foot \<open>a\<close> of a proper left ramp (\<open>a < b\<close>); and it is
  1 at the plateau centre \<open>(b + c) / 2\<close> when that centre lies strictly between \<open>a\<close> and
  \<open>d\<close>.
\<close>

theorem calculateMembership_bounds_and_anchors:
  assumes "points s = (a, b, c, d)" "a \<le> b" "b \<le> c" "c \<le> d"
  shows "0 \<le> calculateMembership v s \<and> calculateMembership v s \<le> 1
         \<and> (a < b \<longrightarrow> calculateMembership a s = 0)
         \<and> (a < (b + c) / 2 \<and> (b + c) / 2 < d \<longrightarrow> calculateMembership ((b + c) / 2) s = 1)"
proof -
  have "calculateMembership a s = 0"
    using assms(1) by (simp add: calculateMembership_def)
  moreover have "calculateMembership ((b + c) / 2) s = 1"
    if "a < (b + c) / 2" "(b + c) / 2 < d"
    using that assms by (auto simp: calculateMembership_def)
  ultimately show ?thesis
    using calculateMembership_range[OF assms] by blast
qed

theorem calculateMembership_bounds_and_anchors_witness:
  "0 \<le> calculateMembership 15 (mkSet ''baja'' 10 20 40 60)
   \<and> calculateMembership 15 (mkSet ''baja'' 10 20 40 60) \<le> 1
   \<and> calculateMembership 10 (mkSet ''baja'' 10 20 40 60) = 0
   \<and> calculateMembership ((20 + 40) / 2) (mkSet ''baja'' 10 20 40 60) = 1"
  using calculateMembership_bounds_and_anchors
          [of "mkSet ''baja'' 10 20 40 60" 10 20 40 60 15]
  by (simp add: mkSet_def)

text \<open>The plateau centre of a set squeezed onto its left foot (\<open>a = b = c\<close>) is \<open>a\<close>
  itself, where the membership is 0.\<close>

theorem calculateMembership_centre_counterexample:
  "calculateMembership ((0 + 0) / 2) (mkSet ''s'' 0 0 0 10) \<noteq> 1"
  by (simp add: calculateMembership_def mkSet_def)

section \<open>Rule engine: properties\<close>

lemma fold_min_le: "fold min cs (c::real) \<le> c"
proof (induction cs arbitrary: c)
  case Nil
  show ?case by simp
next
  case (Cons a cs)
  have "fold min cs (min a c) \<le> min a c" by (rule Cons.IH)
  then show ?case by simp
qed

lemma fold_min_Min: "fold min cs (c::real) = Min (set (c # cs))"
proof (induction cs arbitrary: c)
  case Nil
  show ?case by simp
next
  case (Cons a cs)
  have "fold min (a # cs) c = Min (set (min a c # cs))" using Cons.IH by simp
  also have "\<dots> = Min (set (c # a # cs))"
    by (cases "cs = []") (simp_all add: min.commute min.assoc min.left_commute)
  finally show ?case .
qed

lemma ruleActivation_Min:
  "ruleActivation tm pm tem r =
     (if ruleConditionDegrees tm pm tem r = [] then 0
      else Min (set (ruleConditionDegrees tm pm tem r)))"
  by (simp add: ruleActivation_def fold_min_Min split: list.splits)

lemma applyRule_not_fired:
  "ruleActivation tm pm tem rule \<le> 0 \<Longrightarrow> applyRule tm pm tem rule st = st"
  by (simp add: applyRule_def Let_def)

lemma fold_applyRule_none_fired:
  "\<forall>r \<in> set rules. ruleActivation tm pm tem r \<le> 0 \<Longrightarrow>
   fold (applyRule tm pm tem) rules st = st"
  by (induction rules arbitrary: st) (simp_all add: applyRule_not_fired)

lemma applyRule_level:
  "phCorrectionLevel (applyRule tm pm tem r st) =
     (if ruleActivation tm pm tem r > 0 \<and> ruleActivation tm pm tem r > maxPhCorrectionWeight st
      then out_phCorrection (outputs r) else phCorrectionLevel st)"
  "maxPhCorrectionWeight (applyRule tm pm tem r st) =
     (if ruleActivation tm pm tem r > 0 \<and> ruleActivation tm pm tem r > maxPhCorrectionWeight st
      then ruleActivation tm pm tem r else maxPhCorrectionWeight st)"
  by (simp_all add: applyRule_def Let_def)

lemma applyRule_record:
  "st_ruleActivations (applyRule tm pm tem r st) =
     st_ruleActivations st @
       (if ruleActivation tm pm tem r > 0
        then [\<lparr>act_id = rule_id r, act_name = rule_name r,
               firingStrength = ruleActivation tm pm tem r,
               act_conditions = conditions r, act_outputs = outputs r\<rparr>]
        else [])"
  by (simp add: applyRule_def Let_def)

lemma fold_applyRule_record:
  "st_ruleActivations (fold (applyRule tm pm tem) rules st) =
     st_ruleActivations st @
       map (\<lambda>r. \<lparr>act_id = rule_id r, act_name = rule_name r,
                  firingStrength = ruleActivation tm pm tem r,
                  act_conditions = conditions r, act_outputs = outputs r\<rparr>)
           (filter (\<lambda>r. ruleActivation tm pm tem r > 0) rules)"
  by (induction rules arbitrary: st) (simp_all add: applyRule_record)

lemma fold_applyRule_dominant:
  fixes rules :: "FuzzyRule list" and tm pm tem :: "string \<rightharpoonup> real"
  defines "st \<equiv> fold (applyRule tm pm tem) rules initState"
  defines "s \<equiv> map (ruleActivation tm pm tem) rules"
  shows "(if \<forall>x \<in> set s. x \<le> 0
          then phCorrectionLevel st = none \<and> maxPhCorrectionWeight st = 0
          else \<exists>i. dominantAt s i \<and> maxPhCorrectionWeight st = s ! i \<and>
                   phCorrectionLevel st = out_phCorrection (outputs (rules ! i)))"
  unfolding st_def s_def
proof (induction rules rule: rev_induct)
  case Nil
  show ?case by (simp add: initState_def)
next
  case (snoc r rules)
  let ?act = "ruleActivation tm pm tem"
  let ?st = "fold (applyRule tm pm tem) rules initState"
  let ?s = "map ?act rules"
  have eqs: "map ?act (rules @ [r]) = ?s @ [?act r]"
    "fold (applyRule tm pm tem) (rules @ [r]) initState = applyRule tm pm tem r ?st"
    by simp_all
  have takeover: "\<exists>i. dominantAt (?s @ [?act r]) i \<and>
        maxPhCorrectionWeight (applyRule tm pm tem r ?st) = (?s @ [?act r]) ! i \<and>
        phCorrectionLevel (applyRule tm pm tem r ?st) =
          out_phCorrection (outputs ((rules @ [r]) ! i))"
    if pos: "?act r > 0" and gt: "?act r > maxPhCorrectionWeight ?st"
      and all: "\<forall>j < length ?s. ?s ! j < ?act r"
  proof (intro exI[of _ "length rules"] conjI)
    show "dominantAt (?s @ [?act r]) (length rules)"
      using pos all by (auto simp: dominantAt_def nth_append less_Suc_eq)
    show "maxPhCorrectionWeight (applyRule tm pm tem r ?st) = (?s @ [?act r]) ! length rules"
      using pos gt by (simp add: applyRule_level nth_append)
    show "phCorrectionLevel (applyRule tm pm tem r ?st) =
            out_phCorrection (outputs ((rules @ [r]) ! length rules))"
      using pos gt by (simp add: applyRule_level)
  qed
  show ?case
  proof (cases "\<forall>x \<in> set ?s. x \<le> 0")
    case True
    from snoc.IH[unfolded if_P[OF True]]
    have base: "phCorrectionLevel ?st = none" "maxPhCorrectionWeight ?st = 0"
      by simp_all
    show ?thesis
    proof (cases "?act r > 0")
      case False
      with True base show ?thesis by (simp add: applyRule_level)
    next
      case pos: True
      then have ne: "\<not> (\<forall>x \<in> set (map ?act (rules @ [r])). x \<le> 0)" by auto
      from True have "\<forall>j < length ?s. ?s ! j < ?act r"
        using pos by (metis le_less_trans nth_mem)
      with pos base have "\<exists>i. dominantAt (?s @ [?act r]) i \<and>
        maxPhCorrectionWeight (applyRule tm pm tem r ?st) = (?s @ [?act r]) ! i \<and>
        phCorrectionLevel (applyRule tm pm tem r ?st) =
          out_phCorrection (outputs ((rules @ [r]) ! i))"
        by (intro takeover) simp_all
      then show ?thesis
        by (subst if_not_P[OF ne]) (unfold eqs)
    qed
  next
    case False
    from snoc.IH[unfolded if_not_P[OF False]]
    obtain i where i: "dominantAt ?s i" "maxPhCorrectionWeight ?st = ?s ! i"
      "phCorrectionLevel ?st = out_phCorrection (outputs (rules ! i))"
      by blast
    from i(1) have ipos: "?s ! i > 0" and "i < length ?s"
      unfolding dominantAt_def by blast+
    then have il: "i < length rules" by simp
    from False have ne: "\<not> (\<forall>x \<in> set (map ?act (rules @ [r])). x \<le> 0)" by auto
    have "\<exists>i. dominantAt (?s @ [?act r]) i \<and>
        maxPhCorrectionWeight (applyRule tm pm tem r ?st) = (?s @ [?act r]) ! i \<and>
        phCorrectionLevel (applyRule tm pm tem r ?st) =
          out_phCorrection (outputs ((rules @ [r]) ! i))"
    proof (cases "?act r > ?s ! i")
      case True
      then have pos: "?act r > 0" using ipos by linarith
      have "\<forall>j < length ?s. ?s ! j < ?act r"
        using i(1) True unfolding dominantAt_def by (metis le_less_trans)
      with pos True i(2) show ?thesis
        by (intro takeover) simp_all
    next
      case notgt: False
      show ?thesis
      proof (intro exI[of _ i] conjI)
        show "dominantAt (?s @ [?act r]) i"
          using i(1) notgt by (auto simp: dominantAt_def nth_append less_Suc_eq)
        show "maxPhCorrectionWeight (applyRule tm pm tem r ?st) = (?s @ [?act r]) ! i"
          using notgt i(2) il by (simp add: applyRule_level nth_append)
        show "phCorrectionLevel (applyRule tm pm tem r ?st) =
                out_phCorrection (outputs ((rules @ [r]) ! i))"
          using notgt i(2,3) il by (simp add: applyRule_level nth_append)
      qed
    qed
    then show ?thesis
      by (subst if_not_P[OF ne]) (unfold eqs)
  qed
qed

text \<open>
  C7. The firing strength of a rule is the minimum of the membership degrees of the
  conditions it has, and 0 when it has none; the rules recorded in the result are the
  fired ones with exactly these strengths; and the returned \<open>phCorrection\<close> is \<open>none\<close>
  when no rule fires, and otherwise that of the dominant rule: the rule that is
  strictly stronger than every rule before it and not exceeded by any rule after it
  (so of several equally strong rules the earliest one decides).
\<close>

theorem firing_strength_and_dominant_rule:
  "firingStrengthOf inputs r =
     (if presentDegrees inputs r = [] then 0 else Min (set (presentDegrees inputs r)))
   \<and> set (map (\<lambda>a. (act_id a, firingStrength a))
             (ruleActivations (runFuzzyInference inputs))) =
       {(rule_id q, firingStrengthOf inputs q) | q.
          q \<in> set FUZZY_RULES \<and> firingStrengthOf inputs q > 0}
   \<and> ((\<forall>x \<in> set (map (firingStrengthOf inputs) FUZZY_RULES). x \<le> 0) \<longrightarrow>
        phCorrection (runFuzzyInference inputs) = none)
   \<and> ((\<exists>x \<in> set (map (firingStrengthOf inputs) FUZZY_RULES). x > 0) \<longrightarrow>
        (\<exists>i. dominantAt (map (firingStrengthOf inputs) FUZZY_RULES) i \<and>
             phCorrection (runFuzzyInference inputs) =
               out_phCorrection (outputs (FUZZY_RULES ! i))))"
proof -
  let ?tm = "getMemberships (turbidity inputs) TURBIDITY_SETS"
  let ?pm = "getMemberships (ph inputs) PH_SETS"
  let ?tem = "getMemberships (temperature inputs) TEMPERATURE_SETS"
  have act: "firingStrengthOf inputs = ruleActivation ?tm ?pm ?tem"
    by (rule ext) (simp add: firingStrengthOf_def)
  have level: "phCorrection (runFuzzyInference inputs) =
                 phCorrectionLevel (fold (applyRule ?tm ?pm ?tem) FUZZY_RULES initState)"
    by (simp only: runFuzzyInference_def inferWith_def Let_def evalRules_def
          FuzzyOutputs.select_convs)
  have recorded: "ruleActivations (runFuzzyInference inputs) =
      sort_key (\<lambda>a. - firingStrength a)
        (st_ruleActivations (fold (applyRule ?tm ?pm ?tem) FUZZY_RULES initState))"
    by (simp only: runFuzzyInference_def inferWith_def Let_def evalRules_def
          FuzzyOutputs.select_convs)
  have 1: "firingStrengthOf inputs r =
     (if presentDegrees inputs r = [] then 0 else Min (set (presentDegrees inputs r)))"
    by (simp add: firingStrengthOf_def presentDegrees_def ruleActivation_Min)
  have 2: "set (map (\<lambda>a. (act_id a, firingStrength a))
             (ruleActivations (runFuzzyInference inputs))) =
       {(rule_id q, firingStrengthOf inputs q) | q.
          q \<in> set FUZZY_RULES \<and> firingStrengthOf inputs q > 0}"
    unfolding recorded fold_applyRule_record act
    by (auto simp: initState_def image_iff)
  have 3: "(\<forall>x \<in> set (map (firingStrengthOf inputs) FUZZY_RULES). x \<le> 0) \<longrightarrow>
        phCorrection (runFuzzyInference inputs) = none"
    using fold_applyRule_dominant[of ?tm ?pm ?tem FUZZY_RULES]
    unfolding level act by (simp split: if_splits)
  have 4: "(\<exists>x \<in> set (map (firingStrengthOf inputs) FUZZY_RULES). x > 0) \<longrightarrow>
        (\<exists>i. dominantAt (map (firingStrengthOf inputs) FUZZY_RULES) i \<and>
             phCorrection (runFuzzyInference inputs) =
               out_phCorrection (outputs (FUZZY_RULES ! i)))"
  proof
    assume "\<exists>x \<in> set (map (firingStrengthOf inputs) FUZZY_RULES). x > 0"
    then have "\<not> (\<forall>x \<in> set (map (ruleActivation ?tm ?pm ?tem) FUZZY_RULES). x \<le> 0)"
      unfolding act by (meson not_le)
    then show "\<exists>i. dominantAt (map (firingStrengthOf inputs) FUZZY_RULES) i \<and>
             phCorrection (runFuzzyInference inputs) =
               out_phCorrection (outputs (FUZZY_RULES ! i))"
      using fold_applyRule_dominant[of ?tm ?pm ?tem FUZZY_RULES]
      unfolding level act by (simp only: if_False) blast
  qed
  from 1 2 3 4 show ?thesis by blast
qed

theorem firing_strength_and_dominant_rule_witness:
  "firingStrengthOf \<lparr>turbidity = 3, ph = 6.3, temperature = 22\<rparr> (FUZZY_RULES ! 1) = 2 / 5
   \<and> (\<exists>x \<in> set (map (firingStrengthOf \<lparr>turbidity = 3, ph = 6.3, temperature = 22\<rparr>)
                     FUZZY_RULES). x > 0)
   \<and> (\<exists>i. dominantAt (map (firingStrengthOf \<lparr>turbidity = 3, ph = 6.3, temperature = 22\<rparr>)
                        FUZZY_RULES) i \<and>
          phCorrection (runFuzzyInference \<lparr>turbidity = 3, ph = 6.3, temperature = 22\<rparr>) =
            out_phCorrection (outputs (FUZZY_RULES ! i)))"
proof -
  let ?inp = "\<lparr>turbidity = 3, ph = 6.3, temperature = 22\<rparr>"
  have s: "firingStrengthOf ?inp (FUZZY_RULES ! 1) = 2 / 5"
    by code_simp
  have "FUZZY_RULES ! 1 \<in> set FUZZY_RULES"
    by (simp add: FUZZY_RULES_def)
  with s have fired: "\<exists>x \<in> set (map (firingStrengthOf ?inp) FUZZY_RULES). x > 0"
    by (intro bexI[of _ "firingStrengthOf ?inp (FUZZY_RULES ! 1)"]) simp_all
  with firing_strength_and_dominant_rule[of ?inp "FUZZY_RULES ! 1"] s
  show ?thesis by blast
qed

section \<open>Derived metrics: properties\<close>

lemma turbidity_memberships_nonpositive:
  "t \<le> 0 \<Longrightarrow> getOr0 (getMemberships t TURBIDITY_SETS) n = 0"
  by (simp add: getMemberships_def TURBIDITY_SETS_def mkSet_def calculateMembership_def
        getOr0_def)

lemma rules_have_turbidity:
  "r \<in> set FUZZY_RULES \<Longrightarrow> \<exists>n. cond_turbidity (conditions r) = Some n \<and> n \<noteq> []"
  by (auto simp: FUZZY_RULES_def mkRule_def)

lemma ruleActivation_turbidity_zero:
  assumes "cond_turbidity (conditions r) = Some n" "n \<noteq> []" "getOr0 tm n = 0"
  shows "ruleActivation tm pm tem r \<le> 0"
  using assms fold_min_le[of _ 0]
  by (simp add: ruleActivation_def ruleConditionDegrees_def pushCondition_def
        del: fold_append)

lemma defuzzify_empty: "defuzzify Map.empty DOSE_SETS = 0"
  by (simp add: defuzzify_def DOSE_SETS_def getOr0_def)

lemma dose_zero_nonpositive_turbidity:
  assumes "turbidity inputs \<le> 0"
  shows "defuzzifiedDose inputs = 0"
proof -
  have "\<forall>r \<in> set FUZZY_RULES.
          ruleActivation (getMemberships (turbidity inputs) TURBIDITY_SETS)
            (getMemberships (ph inputs) PH_SETS)
            (getMemberships (temperature inputs) TEMPERATURE_SETS) r \<le> 0"
    using assms rules_have_turbidity ruleActivation_turbidity_zero
      turbidity_memberships_nonpositive
    by blast
  then show ?thesis
    by (simp add: defuzzifiedDose_def evalRules_def fold_applyRule_none_fired initState_def
          defuzzify_empty)
qed

text \<open>
  C2, as the code has it. The quality score is the rounded weighted sum, clamped to
  \<open>[0, 100]\<close>, where the process factor is \<open>min(100, (dose / turbidity) * 500)\<close> when the
  defuzzified dose (before its rounding) is positive and the midpoint 50 otherwise; a
  turbidity of 0 or less always takes the midpoint.
\<close>

theorem qualityScore_formula:
  "qualityScore (runFuzzyInference inputs) =
     max 0 (min 100 (Math_round
       (max 0 (100 - turbidity inputs / 10) * 0.5
        + max 0 (100 - \<bar>ph inputs - 7\<bar> * 15) * 0.3
        + (if defuzzifiedDose inputs > 0
           then min 100 ((defuzzifiedDose inputs / turbidity inputs) * 500)
           else 50) * 0.2)))
   \<and> (turbidity inputs \<le> 0 \<longrightarrow> \<not> defuzzifiedDose inputs > 0)"
proof (rule conjI)
  show "qualityScore (runFuzzyInference inputs) =
     max 0 (min 100 (Math_round
       (max 0 (100 - turbidity inputs / 10) * 0.5
        + max 0 (100 - \<bar>ph inputs - 7\<bar> * 15) * 0.3
        + (if defuzzifiedDose inputs > 0
           then min 100 ((defuzzifiedDose inputs / turbidity inputs) * 500)
           else 50) * 0.2)))"
    by (simp only: runFuzzyInference_def inferWith_def Let_def defuzzifiedDose_def
          FuzzyOutputs.select_convs)
  show "turbidity inputs \<le> 0 \<longrightarrow> \<not> defuzzifiedDose inputs > 0"
    using dose_zero_nonpositive_turbidity[of inputs] by simp
qed

theorem qualityScore_formula_witness:
  "qualityScore (runFuzzyInference \<lparr>turbidity = 0, ph = 7, temperature = 22\<rparr>) = 90
   \<and> \<not> defuzzifiedDose \<lparr>turbidity = 0, ph = 7, temperature = 22\<rparr> > 0"
proof -
  have dose: "\<not> defuzzifiedDose \<lparr>turbidity = 0, ph = 7, temperature = 22\<rparr> > 0"
    using qualityScore_formula[of "\<lparr>turbidity = 0, ph = 7, temperature = 22\<rparr>"] by simp
  have "qualityScore (runFuzzyInference \<lparr>turbidity = 0, ph = 7, temperature = 22\<rparr>) =
          max 0 (min 100 (Math_round (max 0 (100 - 0 / 10) * 0.5
            + max 0 (100 - \<bar>7 - 7\<bar> * 15) * 0.3 + 50 * 0.2)))"
    using qualityScore_formula[of "\<lparr>turbidity = 0, ph = 7, temperature = 22\<rparr>"] dose
    by (simp only: WaterInputs.select_convs if_False)
  also have "\<dots> = 90" by (simp add: Math_round_def)
  finally show ?thesis using dose by blast
qed

text \<open>With turbidity 100 and pH 14 no rule fires: the dose is 0 and the code takes the
  midpoint 50 (score 55), where the rule "by turbidity > 0" computes a process factor
  of 0 (score 45).\<close>

theorem qualityScore_counterexample:
  "turbidity \<lparr>turbidity = 100, ph = 14, temperature = 22\<rparr> > 0
   \<and> qualityScore (runFuzzyInference \<lparr>turbidity = 100, ph = 14, temperature = 22\<rparr>) = 55
   \<and> max 0 (min 100 (Math_round
       (0.5 * max 0 (100 - 100 / 10)
        + 0.3 * max 0 (100 - \<bar>14 - 7\<bar> * 15)
        + 0.2 * min 100
            ((coagulantDose (runFuzzyInference \<lparr>turbidity = 100, ph = 14, temperature = 22\<rparr>)
              / 100) * 500)))) = 45"
proof -
  have "qualityScore (runFuzzyInference \<lparr>turbidity = 100, ph = 14, temperature = 22\<rparr>) = 55"
    by code_simp
  moreover
  have "coagulantDose (runFuzzyInference \<lparr>turbidity = 100, ph = 14, temperature = 22\<rparr>) = 0"
    by code_simp
  ultimately show ?thesis by (simp add: Math_round_def)
qed

section \<open>Dose along the slice pH 7, 22 degrees\<close>

lemma fold_max_nonneg: "(0::real) \<le> acc \<Longrightarrow> acc \<le> fold max xs acc"
proof (induction xs arbitrary: acc)
  case Nil
  show ?case by simp
next
  case (Cons x xs)
  have "max x acc \<le> fold max xs (max x acc)" using Cons.prems by (intro Cons.IH) simp
  then show ?case by simp
qed

lemma applyRule_dose:
  "getOr0 (doseActivations (applyRule tm pm tem r st)) n =
     (if ruleActivation tm pm tem r > 0 \<and> out_dose (outputs r) = n
      then max (ruleActivation tm pm tem r) (getOr0 (doseActivations st) n)
      else getOr0 (doseActivations st) n)"
  by (simp add: applyRule_def Let_def getOr0_def max.commute)

lemma fold_applyRule_dose:
  "getOr0 (doseActivations (fold (applyRule tm pm tem) rules st)) n =
     fold max (map (ruleActivation tm pm tem)
                   (filter (\<lambda>r. ruleActivation tm pm tem r > 0 \<and> out_dose (outputs r) = n) rules))
              (getOr0 (doseActivations st) n)"
  by (induction rules arbitrary: st) (simp_all add: applyRule_dose)

text \<open>Memberships of pH 7 and of 22 degrees.\<close>

lemma ph7_memberships:
  "getOr0 (getMemberships 7 PH_SETS) n = (if n = ''neutro'' then 1 else 0)"
  by (simp add: getMemberships_def PH_SETS_def mkSet_def calculateMembership_def getOr0_def)

lemma temp22_memberships:
  "getOr0 (getMemberships 22 TEMPERATURE_SETS) n = (if n = ''normal'' then 1 else 0)"
  by (simp add: getMemberships_def TEMPERATURE_SETS_def mkSet_def calculateMembership_def
        getOr0_def)

lemma slice_dose_activations:
  fixes tm :: "string \<rightharpoonup> real"
  assumes "\<And>n. 0 \<le> getOr0 tm n" "\<And>n. getOr0 tm n \<le> 1"
  defines "st \<equiv> evalRules tm (getMemberships 7 PH_SETS) (getMemberships 22 TEMPERATURE_SETS)
                   FUZZY_RULES"
  shows "getOr0 (doseActivations st) ''muy_baja'' = getOr0 tm ''muy_baja''"
    and "getOr0 (doseActivations st) ''baja'' = getOr0 tm ''baja''"
    and "getOr0 (doseActivations st) ''media'' = getOr0 tm ''media''"
    and "getOr0 (doseActivations st) ''alta'' = getOr0 tm ''alta''"
    and "getOr0 (doseActivations st) ''muy_alta'' = getOr0 tm ''muy_alta''"
  unfolding st_def evalRules_def fold_applyRule_dose
  using assms(1)[of "''muy_baja''"] assms(2)[of "''muy_baja''"]
    assms(1)[of "''baja''"] assms(2)[of "''baja''"]
    assms(1)[of "''media''"] assms(2)[of "''media''"]
    assms(1)[of "''alta''"] assms(2)[of "''alta''"]
    assms(1)[of "''muy_alta''"] assms(2)[of "''muy_alta''"]
  by (simp_all add: FUZZY_RULES_def mkRule_def ruleActivation_def ruleConditionDegrees_def
        pushCondition_def ph7_memberships temp22_memberships initState_def
        min_def max_def getOr0_def[of Map.empty])

lemma defuzzify_dose_closed:
  assumes "0 \<le> getOr0 A ''muy_baja''" "0 \<le> getOr0 A ''baja''" "0 \<le> getOr0 A ''media''"
    "0 \<le> getOr0 A ''alta''" "0 \<le> getOr0 A ''muy_alta''"
  shows "defuzzify A DOSE_SETS =
     (if getOr0 A ''muy_baja'' + getOr0 A ''baja'' + getOr0 A ''media'' + getOr0 A ''alta''
         + getOr0 A ''muy_alta'' > 0
      then (2.5 * getOr0 A ''muy_baja'' + 18.5 * getOr0 A ''baja'' + 40 * getOr0 A ''media''
            + 67.5 * getOr0 A ''alta'' + 95 * getOr0 A ''muy_alta'')
           / (getOr0 A ''muy_baja'' + getOr0 A ''baja'' + getOr0 A ''media'' + getOr0 A ''alta''
              + getOr0 A ''muy_alta'')
      else 0)"
proof -
  have step: "(if 0 < a then (num + c * a, den + a) else (num, den)) = (num + c * a, den + a)"
    if "0 \<le> a" for a c num den :: real
    using that by auto
  show ?thesis
    using assms
    by (simp add: defuzzify_def DOSE_SETS_def mkSet_def Let_def step algebra_simps)
qed

lemma turbidity_memberships:
  "getOr0 (getMemberships t TURBIDITY_SETS) n =
     (if n = ''muy_alta'' then calculateMembership t (mkSet ''muy_alta'' 400 600 1000 1000)
      else if n = ''alta'' then calculateMembership t (mkSet ''alta'' 150 250 400 500)
      else if n = ''media'' then calculateMembership t (mkSet ''media'' 50 80 150 200)
      else if n = ''baja'' then calculateMembership t (mkSet ''baja'' 10 20 40 60)
      else if n = ''muy_baja'' then calculateMembership t (mkSet ''muy_baja'' 0 0 5 15)
      else 0)"
  by (simp add: getMemberships_def TURBIDITY_SETS_def mkSet_def getOr0_def)

lemma turbidity_memberships_bounds:
  "0 \<le> getOr0 (getMemberships t TURBIDITY_SETS) n"
  "getOr0 (getMemberships t TURBIDITY_SETS) n \<le> 1"
  unfolding turbidity_memberships
  by (auto simp: calculateMembership_def mkSet_def divide_simps)

lemma sliceDose_closed:
  "sliceDose t =
     (let m1 = calculateMembership t (mkSet ''muy_baja'' 0 0 5 15);
          m2 = calculateMembership t (mkSet ''baja'' 10 20 40 60);
          m3 = calculateMembership t (mkSet ''media'' 50 80 150 200);
          m4 = calculateMembership t (mkSet ''alta'' 150 250 400 500);
          m5 = calculateMembership t (mkSet ''muy_alta'' 400 600 1000 1000)
      in if m1 + m2 + m3 + m4 + m5 > 0
         then (2.5 * m1 + 18.5 * m2 + 40 * m3 + 67.5 * m4 + 95 * m5) / (m1 + m2 + m3 + m4 + m5)
         else 0)"
proof -
  let ?tm = "getMemberships t TURBIDITY_SETS"
  let ?st = "evalRules ?tm (getMemberships 7 PH_SETS) (getMemberships 22 TEMPERATURE_SETS)
               FUZZY_RULES"
  note acts = slice_dose_activations[of ?tm, OF turbidity_memberships_bounds]
  have "sliceDose t = defuzzify (doseActivations ?st) DOSE_SETS"
    by (simp add: sliceDose_def defuzzifiedDose_def)
  also have "\<dots> =
     (if getOr0 ?tm ''muy_baja'' + getOr0 ?tm ''baja'' + getOr0 ?tm ''media''
         + getOr0 ?tm ''alta'' + getOr0 ?tm ''muy_alta'' > 0
      then (2.5 * getOr0 ?tm ''muy_baja'' + 18.5 * getOr0 ?tm ''baja''
            + 40 * getOr0 ?tm ''media'' + 67.5 * getOr0 ?tm ''alta''
            + 95 * getOr0 ?tm ''muy_alta'')
           / (getOr0 ?tm ''muy_baja'' + getOr0 ?tm ''baja'' + getOr0 ?tm ''media''
              + getOr0 ?tm ''alta'' + getOr0 ?tm ''muy_alta'')
      else 0)"
    using defuzzify_dose_closed[of "doseActivations ?st"] turbidity_memberships_bounds(1)[of t]
    unfolding acts by simp
  also have "\<dots> = (let m1 = calculateMembership t (mkSet ''muy_baja'' 0 0 5 15);
          m2 = calculateMembership t (mkSet ''baja'' 10 20 40 60);
          m3 = calculateMembership t (mkSet ''media'' 50 80 150 200);
          m4 = calculateMembership t (mkSet ''alta'' 150 250 400 500);
          m5 = calculateMembership t (mkSet ''muy_alta'' 400 600 1000 1000)
      in if m1 + m2 + m3 + m4 + m5 > 0
         then (2.5 * m1 + 18.5 * m2 + 40 * m3 + 67.5 * m4 + 95 * m5) / (m1 + m2 + m3 + m4 + m5)
         else 0)"
    by (simp add: turbidity_memberships Let_def)
  finally show ?thesis .
qed

lemma sliceDose_pieces:
  "t \<le> 0 \<Longrightarrow> sliceDose t = 0"
  "0 < t \<Longrightarrow> t \<le> 10 \<Longrightarrow> sliceDose t = 2.5"
  "10 \<le> t \<Longrightarrow> t \<le> 15 \<Longrightarrow> sliceDose t = 3.2 * t - 29.5"
  "15 \<le> t \<Longrightarrow> t \<le> 50 \<Longrightarrow> sliceDose t = 18.5"
  "50 \<le> t \<Longrightarrow> t \<le> 60 \<Longrightarrow> sliceDose t = (24.5 * t - 670) / (80 - t)"
  "60 \<le> t \<Longrightarrow> t \<le> 150 \<Longrightarrow> sliceDose t = 40"
  "150 \<le> t \<Longrightarrow> t \<le> 200 \<Longrightarrow> sliceDose t = (5875 - 12.5 * t) / (250 - t)"
  "200 \<le> t \<Longrightarrow> t \<le> 400 \<Longrightarrow> sliceDose t = 67.5"
  "400 \<le> t \<Longrightarrow> t \<le> 500 \<Longrightarrow> sliceDose t = (29500 - 40 * t) / (600 - t)"
  "500 \<le> t \<Longrightarrow> t < 1000 \<Longrightarrow> sliceDose t = 95"
  "1000 \<le> t \<Longrightarrow> sliceDose t = 0"
  by (auto simp: sliceDose_closed calculateMembership_def mkSet_def Let_def divide_simps)
     (simp_all add: algebra_simps)

lemma mono_glue:
  fixes f :: "real \<Rightarrow> real"
  assumes L: "\<And>x y. x \<le> y \<Longrightarrow> y \<le> b \<Longrightarrow> f x \<le> f y"
    and R: "\<And>x y. b \<le> x \<Longrightarrow> x \<le> y \<Longrightarrow> y \<le> c \<Longrightarrow> f x \<le> f y"
    and xy: "x \<le> y" "y \<le> c"
  shows "f x \<le> f y"
proof (cases "y \<le> b")
  case True
  with xy(1) show ?thesis by (rule L)
next
  case False
  show ?thesis
  proof (cases "b \<le> x")
    case True
    then show ?thesis using xy by (rule R)
  next
    case False
    then have "f x \<le> f b" by (intro L) simp_all
    also have "f b \<le> f y" using \<open>\<not> y \<le> b\<close> xy(2) by (intro R) simp_all
    finally show ?thesis .
  qed
qed

lemma sliceDose_mono_10: "x \<le> y \<Longrightarrow> y \<le> 10 \<Longrightarrow> sliceDose x \<le> sliceDose y"
  using sliceDose_pieces(1)[of x] sliceDose_pieces(2)[of x]
        sliceDose_pieces(1)[of y] sliceDose_pieces(2)[of y]
  by (cases "x \<le> 0"; cases "y \<le> 0") simp_all

lemma sliceDose_mono_15: "x \<le> y \<Longrightarrow> y \<le> 15 \<Longrightarrow> sliceDose x \<le> sliceDose y"
proof (erule mono_glue[rotated 2, where b = 10])
  show "sliceDose u \<le> sliceDose v" if "u \<le> v" "v \<le> 10" for u v
    using that by (rule sliceDose_mono_10)
  show "sliceDose u \<le> sliceDose v" if "10 \<le> u" "u \<le> v" "v \<le> 15" for u v
    using that sliceDose_pieces(3)[of u] sliceDose_pieces(3)[of v] by simp
qed

lemma sliceDose_mono_50: "x \<le> y \<Longrightarrow> y \<le> 50 \<Longrightarrow> sliceDose x \<le> sliceDose y"
proof (erule mono_glue[rotated 2, where b = 15])
  show "sliceDose u \<le> sliceDose v" if "u \<le> v" "v \<le> 15" for u v
    using that by (rule sliceDose_mono_15)
  show "sliceDose u \<le> sliceDose v" if "15 \<le> u" "u \<le> v" "v \<le> 50" for u v
    using that sliceDose_pieces(4)[of u] sliceDose_pieces(4)[of v] by simp
qed

lemma sliceDose_mono_60: "x \<le> y \<Longrightarrow> y \<le> 60 \<Longrightarrow> sliceDose x \<le> sliceDose y"
proof (erule mono_glue[rotated 2, where b = 50])
  show "sliceDose u \<le> sliceDose v" if "u \<le> v" "v \<le> 50" for u v
    using that by (rule sliceDose_mono_50)
  show "sliceDose u \<le> sliceDose v" if "50 \<le> u" "u \<le> v" "v \<le> 60" for u v
  proof -
    have "(24.5 * u - 670) / (80 - u) \<le> (24.5 * v - 670) / (80 - v)"
      using that by (simp add: field_simps)
    then show ?thesis
      using that sliceDose_pieces(5)[of u] sliceDose_pieces(5)[of v] by simp
  qed
qed

lemma sliceDose_mono_150: "x \<le> y \<Longrightarrow> y \<le> 150 \<Longrightarrow> sliceDose x \<le> sliceDose y"
proof (erule mono_glue[rotated 2, where b = 60])
  show "sliceDose u \<le> sliceDose v" if "u \<le> v" "v \<le> 60" for u v
    using that by (rule sliceDose_mono_60)
  show "sliceDose u \<le> sliceDose v" if "60 \<le> u" "u \<le> v" "v \<le> 150" for u v
    using that sliceDose_pieces(6)[of u] sliceDose_pieces(6)[of v] by simp
qed

lemma sliceDose_mono_200: "x \<le> y \<Longrightarrow> y \<le> 200 \<Longrightarrow> sliceDose x \<le> sliceDose y"
proof (erule mono_glue[rotated 2, where b = 150])
  show "sliceDose u \<le> sliceDose v" if "u \<le> v" "v \<le> 150" for u v
    using that by (rule sliceDose_mono_150)
  show "sliceDose u \<le> sliceDose v" if "150 \<le> u" "u \<le> v" "v \<le> 200" for u v
  proof -
    have "(5875 - 12.5 * u) / (250 - u) \<le> (5875 - 12.5 * v) / (250 - v)"
      using that by (simp add: field_simps)
    then show ?thesis
      using that sliceDose_pieces(7)[of u] sliceDose_pieces(7)[of v] by simp
  qed
qed

lemma sliceDose_mono_400: "x \<le> y \<Longrightarrow> y \<le> 400 \<Longrightarrow> sliceDose x \<le> sliceDose y"
proof (erule mono_glue[rotated 2, where b = 200])
  show "sliceDose u \<le> sliceDose v" if "u \<le> v" "v \<le> 200" for u v
    using that by (rule sliceDose_mono_200)
  show "sliceDose u \<le> sliceDose v" if "200 \<le> u" "u \<le> v" "v \<le> 400" for u v
    using that sliceDose_pieces(8)[of u] sliceDose_pieces(8)[of v] by simp
qed

lemma sliceDose_mono_500: "x \<le> y \<Longrightarrow> y \<le> 500 \<Longrightarrow> sliceDose x \<le> sliceDose y"
proof (erule mono_glue[rotated 2, where b = 400])
  show "sliceDose u \<le> sliceDose v" if "u \<le> v" "v \<le> 400" for u v
    using that by (rule sliceDose_mono_400)
  show "sliceDose u \<le> sliceDose v" if "400 \<le> u" "u \<le> v" "v \<le> 500" for u v
  proof -
    have "(29500 - 40 * u) / (600 - u) \<le> (29500 - 40 * v) / (600 - v)"
      using that by (simp add: field_simps)
    then show ?thesis
      using that sliceDose_pieces(9)[of u] sliceDose_pieces(9)[of v] by simp
  qed
qed

lemma sliceDose_mono:
  assumes "x \<le> y" "y < 1000"
  shows "sliceDose x \<le> sliceDose y"
proof (cases "y \<le> 500")
  case True
  with assms(1) show ?thesis by (rule sliceDose_mono_500)
next
  case False
  then have y: "sliceDose y = 95" using assms(2) by (intro sliceDose_pieces(10)) simp_all
  show ?thesis
  proof (cases "500 \<le> x")
    case True
    then have "sliceDose x = 95" using assms by (intro sliceDose_pieces(10)) simp_all
    with y show ?thesis by simp
  next
    case False
    then have "sliceDose x \<le> sliceDose 500" by (intro sliceDose_mono_500) simp_all
    also have "sliceDose 500 = 95" by (intro sliceDose_pieces(10)) simp_all
    finally show ?thesis using y by simp
  qed
qed

lemma coagulantDose_rounded:
  "coagulantDose (runFuzzyInference inputs) =
     of_int (Math_round (defuzzifiedDose inputs * 10)) / 10"
  by (simp only: runFuzzyInference_def inferWith_def Let_def defuzzifiedDose_def
        FuzzyOutputs.select_convs)

text \<open>
  C8, as the code has it. Along the slice pH 7, 22 degrees the returned dose does not
  decrease when the turbidity grows, as long as the larger turbidity stays below 1000,
  the top of the turbidity catalogue.
\<close>

theorem coagulantDose_monotone_below_catalogue_top:
  assumes "t1 \<le> t2" "t2 < 1000"
  shows "coagulantDose (runFuzzyInference \<lparr>turbidity = t1, ph = 7, temperature = 22\<rparr>)
       \<le> coagulantDose (runFuzzyInference \<lparr>turbidity = t2, ph = 7, temperature = 22\<rparr>)"
proof -
  have "sliceDose t1 * 10 + 1 / 2 \<le> sliceDose t2 * 10 + 1 / 2"
    using sliceDose_mono[OF assms] by simp
  then have "Math_round (sliceDose t1 * 10) \<le> Math_round (sliceDose t2 * 10)"
    unfolding Math_round_def by (rule floor_mono)
  then show ?thesis
    by (simp add: coagulantDose_rounded sliceDose_def divide_right_mono)
qed

theorem coagulantDose_monotone_below_catalogue_top_witness:
  "(55::real) \<le> 450 \<and> (450::real) < 1000
   \<and> coagulantDose (runFuzzyInference \<lparr>turbidity = 55, ph = 7, temperature = 22\<rparr>)
     \<le> coagulantDose (runFuzzyInference \<lparr>turbidity = 450, ph = 7, temperature = 22\<rparr>)"
  using coagulantDose_monotone_below_catalogue_top[of 55 450] by simp

text \<open>Above the catalogue no turbidity set is active, no rule fires and the dose falls
  back to 0: from turbidity 999 to 1001 the dose drops from 95 to 0.\<close>

theorem coagulantDose_monotone_counterexample:
  "(999::real) \<le> 1001
   \<and> coagulantDose (runFuzzyInference \<lparr>turbidity = 999, ph = 7, temperature = 22\<rparr>) = 95
   \<and> coagulantDose (runFuzzyInference \<lparr>turbidity = 1001, ph = 7, temperature = 22\<rparr>) = 0"
proof -
  have "coagulantDose (runFuzzyInference \<lparr>turbidity = 999, ph = 7, temperature = 22\<rparr>) = 95"
    by code_simp
  moreover
  have "coagulantDose (runFuzzyInference \<lparr>turbidity = 1001, ph = 7, temperature = 22\<rparr>) = 0"
    by code_simp
  ultimately show ?thesis by simp
qed


section \<open>Cluster analytics: properties\<close>

text \<open>
  C10. On a one-element row \<open>[x]\<close> the failure index and the alert index are both 0, so
  the score is \<open>min(100, round(140 * x))\<close>; a fully confident single-cluster point is
  scored 100 and put in the critical category.
\<close>

theorem analyzeRisk_single_cluster:
  "riskScore (analyzeRisk [x] names) = min 100 (Math_round (140 * x))
   \<and> riskScore (analyzeRisk [1] names) = 100
   \<and> riskCategory (analyzeRisk [1] names) = critical_risk"
  by (simp add: analyzeRisk_def atOr0_def Let_def Math_round_def split: prod.splits)

section \<open>Fuzzy C-Means solver: properties\<close>






lemma sumRatiosLoop_eq:
  "sumRatiosLoop ds m j ls acc =
     (if \<exists>l \<in> set ls. ds ! l = 0 then None
      else Some (acc + sum_list (map (\<lambda>l. Math_pow (ds ! j / ds ! l) (2 / (m - 1))) ls)))"
  by (induction ls arbitrary: acc) (simp_all add: add.assoc)

lemma Math_pow_nonneg: "0 \<le> Math_pow x y"
  by (simp add: Math_pow_def)

lemma newMembership_nonneg: "0 \<le> newMembership ds m k j"
  by (auto simp: newMembership_def sumRatiosLoop_eq intro!: sum_list_nonneg Math_pow_nonneg)










subsection \<open>Which errors the solver raises\<close>

lemma euclideanDistance_Inr:
  "length p1 = length p2 \<Longrightarrow> \<exists>d. euclideanDistance p1 p2 = Inr d"
  by (simp add: euclideanDistance_def)

lemma euclideanDistance_Inl:
  "euclideanDistance p1 p2 = Inl e \<Longrightarrow> \<exists>a b. e = DimensionMismatch a b"
  by (auto simp: euclideanDistance_def split: if_splits)

lemma distancesTo_Inr:
  "\<forall>c \<in> set cs. length c = length x \<Longrightarrow> \<exists>ds. distancesTo x cs = Inr ds"
proof (induction cs)
  case Nil
  show ?case by simp
next
  case (Cons c cs)
  then obtain ds where "distancesTo x cs = Inr ds" by auto
  moreover from Cons.prems obtain d where "euclideanDistance x c = Inr d"
    using euclideanDistance_Inr[of x c] by auto
  ultimately show ?case by simp
qed

lemma distancesTo_Inl:
  "distancesTo x cs = Inl e \<Longrightarrow> \<exists>a b. e = DimensionMismatch a b"
  by (induction cs) (auto split: sum.splits dest: euclideanDistance_Inl)

lemma membershipLoop_Inr:
  assumes "\<forall>i \<in> set is. \<forall>c \<in> set cs. length c = length (features (data ! i))"
  shows "\<exists>ms'. membershipLoop data cs m k is ms = Inr ms'"
  using assms
proof (induction "is" arbitrary: ms)
  case Nil
  show ?case by simp
next
  case (Cons i "is")
  from Cons.prems obtain ds where "distancesTo (features (data ! i)) cs = Inr ds"
    using distancesTo_Inr[of cs "features (data ! i)"] by auto
  moreover have "\<forall>i' \<in> set is. \<forall>c \<in> set cs. length c = length (features (data ! i'))"
    using Cons.prems by (meson list.set_intros(2))
  then have "\<exists>ms'. membershipLoop data cs m k is
                   (ms[i := normalizeRow (rowLoop ds m k [0..<k] (ms ! i))]) = Inr ms'"
    by (rule Cons.IH)
  ultimately show ?case by simp
qed

lemma membershipLoop_Inl:
  "membershipLoop data cs m k is ms = Inl e \<Longrightarrow> \<exists>a b. e = DimensionMismatch a b"
  by (induction "is" arbitrary: ms) (auto split: sum.splits dest: distancesTo_Inl)

lemma objectiveLoop_Inr:
  assumes "\<forall>(i, j) \<in> set ijs. length (features (data ! i)) = length (cs ! j)"
  shows "\<exists>J'. objectiveLoop data cs ms m ijs J = Inr J'"
  using assms
proof (induction ijs arbitrary: J)
  case Nil
  show ?case by simp
next
  case (Cons ij ijs)
  obtain i j where ij: "ij = (i, j)" by (cases ij)
  with Cons.prems obtain d where "euclideanDistance (features (data ! i)) (cs ! j) = Inr d"
    using euclideanDistance_Inr[of "features (data ! i)" "cs ! j"] by auto
  moreover have "\<exists>J'. objectiveLoop data cs ms m ijs
                   (J + Math_pow (ms ! i ! j) m * d\<^sup>2) = Inr J'"
    using Cons.prems by (intro Cons.IH) simp
  ultimately show ?case using ij by simp
qed

lemma objectiveLoop_Inl:
  "objectiveLoop data cs ms m ijs J = Inl e \<Longrightarrow> \<exists>a b. e = DimensionMismatch a b"
  by (induction data cs ms m ijs J rule: objectiveLoop.induct)
     (auto split: sum.splits dest: euclideanDistance_Inl)

lemma newCentroid_length: "length (newCentroid data ms m dimensionCount j) = dimensionCount"
proof -
  have "length (fst (fold (\<lambda>i (newCentroid, weightSum).
                   let weight = Math_pow (ms ! i ! j) m in
                   (map (\<lambda>d. newCentroid ! d + weight * features (data ! i) ! d)
                        [0..<dimensionCount],
                    weightSum + weight)) is acc)) = dimensionCount"
    if "length (fst acc) = dimensionCount" for "is" acc
    using that by (induction "is" arbitrary: acc) (auto simp: Let_def split: prod.splits)
  from this[of "(replicate dimensionCount 0, 0)" "[0..<length data]"]
  show ?thesis by (cases "fold (\<lambda>i (newCentroid, weightSum).
                   let weight = Math_pow (ms ! i ! j) m in
                   (map (\<lambda>d. newCentroid ! d + weight * features (data ! i) ! d)
                        [0..<dimensionCount],
                    weightSum + weight)) [0..<length data] (replicate dimensionCount 0, 0)")
     (simp add: newCentroid_def)
qed

lemma fcmStep_Inl:
  "fcmStep data cfg st = Inl e \<Longrightarrow> \<exists>a b. e = DimensionMismatch a b"
  by (auto simp: fcmStep_def Let_def calculateObjectiveFunction_def
           split: sum.splits if_splits dest: membershipLoop_Inl objectiveLoop_Inl)

lemma fcmLoop_Inl:
  "fcmLoop data cfg st = Inl e \<Longrightarrow> \<exists>a b. e = DimensionMismatch a b"
proof (induction data cfg st rule: fcmLoop.induct)
  case (1 data cfg st)
  from "1.prems" have run: "ls_iteration st < maxIterations cfg \<and> \<not> ls_converged st"
    by (simp add: fcmLoop.simps[of data cfg st] split: if_splits)
  show ?case
  proof (cases "fcmStep data cfg st")
    case (Inl e')
    with "1.prems" run have "e' = e" by (simp add: fcmLoop.simps[of data cfg st])
    with Inl show ?thesis by (auto dest: fcmStep_Inl)
  next
    case (Inr st1)
    with "1.prems" run have "fcmLoop data cfg st1 = Inl e"
      by (simp add: fcmLoop.simps[of data cfg st])
    with "1.IH"[OF run Inr] show ?thesis .
  qed
qed

lemma fcmStep_Inr:
  assumes "data \<noteq> []" "uniformDim d data" "\<forall>c \<in> set (ls_centroids st). length c = d"
  shows "\<exists>st'. fcmStep data cfg st = Inr st' \<and> (\<forall>c \<in> set (ls_centroids st'). length c = d)"
proof -
  let ?k = "clusterCount cfg" and ?m = "fuzziness cfg"
  have feat: "length (features (data ! i)) = d" if "i < length data" for i
    using assms(2) that by (simp add: uniformDim_def)
  have "\<forall>i \<in> set [0..<length data]. \<forall>c \<in> set (ls_centroids st).
          length c = length (features (data ! i))"
    using feat assms(3) by simp
  then obtain ms where
    ms: "membershipLoop data (ls_centroids st) ?m ?k [0..<length data] (ls_memberships st)
           = Inr ms"
    using membershipLoop_Inr by blast
  let ?cs = "map (newCentroid data ms ?m (length (features (data ! 0)))) [0..<?k]"
  have d0: "length (features (data ! 0)) = d" using assms(1) by (intro feat) simp
  have csd: "\<forall>c \<in> set ?cs. length c = d" by (auto simp: newCentroid_length d0)
  have "\<forall>(i, j) \<in> set (List.product [0..<length data] [0..<length ?cs]).
          length (features (data ! i)) = length (?cs ! j)"
    using feat by (auto simp: newCentroid_length d0)
  then obtain J where "calculateObjectiveFunction data ?cs ms ?m = Inr J"
    unfolding calculateObjectiveFunction_def using objectiveLoop_Inr by blast
  with ms csd show ?thesis
    by (auto simp: fcmStep_def Let_def)
qed

lemma fcmLoop_Inr:
  "data \<noteq> [] \<Longrightarrow> uniformDim d data \<Longrightarrow> \<forall>c \<in> set (ls_centroids st). length c = d \<Longrightarrow>
   \<exists>st'. fcmLoop data cfg st = Inr st'"
proof (induction data cfg st rule: fcmLoop.induct)
  case (1 data cfg st)
  show ?case
  proof (cases "ls_iteration st < maxIterations cfg \<and> \<not> ls_converged st")
    case False
    then show ?thesis by (subst fcmLoop.simps) auto
  next
    case True
    from fcmStep_Inr[OF "1.prems", of cfg] obtain st1 where
      step: "fcmStep data cfg st = Inr st1" and cs: "\<forall>c \<in> set (ls_centroids st1). length c = d"
      by blast
    from "1.IH"[OF True step "1.prems"(1,2) cs] obtain st' where
      "fcmLoop data cfg st1 = Inr st'" by blast
    with True step show ?thesis by (simp add: fcmLoop.simps[of data cfg st])
  qed
qed

lemma fcmLoop_continue:
  "ls_iteration st < maxIterations cfg \<Longrightarrow> \<not> ls_converged st \<Longrightarrow>
   fcmStep data cfg st = Inr st1 \<Longrightarrow> fcmLoop data cfg st = fcmLoop data cfg st1"
  by (subst fcmLoop.simps) simp

lemma fcmLoop_stop:
  "\<not> (ls_iteration st < maxIterations cfg \<and> \<not> ls_converged st) \<Longrightarrow>
   fcmLoop data cfg st = Inr st"
  by (subst fcmLoop.simps) auto




lemma runFCM_returns:
  assumes "data \<noteq> []" "clusterCount cfg \<le> length data" "uniformDim d data"
    "set shuffled \<subseteq> set data"
  shows "\<exists>res. runFCM data cfg shuffled = Inr res"
proof -
  let ?k = "clusterCount cfg"
  have "\<forall>c \<in> set (initializeCentroids shuffled ?k). length c = d"
    using assms(3,4) by (auto simp: initializeCentroids_def uniformDim_def dest!: in_set_takeD)
  then obtain st where
    "fcmLoop data cfg
       \<lparr>ls_centroids = initializeCentroids shuffled ?k,
        ls_memberships = map (\<lambda>_. replicate ?k (1 / real ?k)) data,
        ls_iterationHistory = [], ls_converged = False, ls_iteration = 0,
        ls_prevMemberships = map (\<lambda>_. replicate ?k (1 / real ?k)) data\<rparr> = Inr st"
    using fcmLoop_Inr[OF assms(1,3)] by fastforce
  then show ?thesis using assms(1,2)
    by (simp add: runFCM_def Let_def)
qed




text \<open>
  C6. \<open>runFCM\<close> raises its "no data" error exactly on the empty point list and its
  "too many clusters" error exactly on a non-empty list shorter than the cluster count;
  an error is a result of the other summand, so no \<open>FCMResult\<close> comes with it. On every
  other input whose feature vectors have one common length the call raises no error at
  all and returns a result. (The only other error of the module is the dimension
  mismatch of \<open>euclideanDistance\<close>.)
\<close>

theorem runFCM_invalid_input:
  "(runFCM data cfg shuffled = Inl NoData \<longleftrightarrow> data = [])
   \<and> ((\<exists>a b. runFCM data cfg shuffled = Inl (TooManyClusters a b)) \<longleftrightarrow>
        data \<noteq> [] \<and> clusterCount cfg > length data)
   \<and> (\<forall>a b. runFCM data cfg shuffled = Inl (TooManyClusters a b) \<longrightarrow>
        a = clusterCount cfg \<and> b = length data)
   \<and> (data \<noteq> [] \<and> clusterCount cfg \<le> length data \<and> (\<exists>d. uniformDim d data) \<and>
        mset shuffled = mset data \<longrightarrow>
        (\<exists>res. runFCM data cfg shuffled = Inr res))"
proof -
  let ?st0 = "\<lparr>ls_centroids = initializeCentroids shuffled (clusterCount cfg),
              ls_memberships = map (\<lambda>_. replicate (clusterCount cfg) (1 / real (clusterCount cfg))) data,
              ls_iterationHistory = [], ls_converged = False, ls_iteration = 0,
              ls_prevMemberships = map (\<lambda>_. replicate (clusterCount cfg) (1 / real (clusterCount cfg))) data\<rparr>"
  have guarded: "runFCM data cfg shuffled \<noteq> Inl NoData \<and>
                 runFCM data cfg shuffled \<noteq> Inl (TooManyClusters a b)"
    if "data \<noteq> []" "clusterCount cfg \<le> length data" for a b
  proof (cases "fcmLoop data cfg ?st0")
    case (Inl e)
    then obtain x y where "e = DimensionMismatch x y" using fcmLoop_Inl by blast
    with Inl that show ?thesis by (simp add: runFCM_def Let_def)
  next
    case (Inr st)
    with that show ?thesis by (simp add: runFCM_def Let_def)
  qed
  have 1: "runFCM data cfg shuffled = Inl NoData \<longleftrightarrow> data = []"
  proof
    assume "runFCM data cfg shuffled = Inl NoData"
    then show "data = []"
      using guarded by (cases "data = []"; cases "clusterCount cfg \<le> length data")
                       (auto simp: runFCM_def Let_def)
  next
    assume "data = []"
    then show "runFCM data cfg shuffled = Inl NoData" by (simp add: runFCM_def Let_def)
  qed
  have 2: "(\<exists>a b. runFCM data cfg shuffled = Inl (TooManyClusters a b)) \<longleftrightarrow>
        data \<noteq> [] \<and> clusterCount cfg > length data"
    using guarded by (cases "data = []"; cases "clusterCount cfg \<le> length data")
                     (auto simp: runFCM_def Let_def)
  have 3: "\<forall>a b. runFCM data cfg shuffled = Inl (TooManyClusters a b) \<longrightarrow>
        a = clusterCount cfg \<and> b = length data"
    using guarded by (cases "data = []"; cases "clusterCount cfg \<le> length data")
                     (auto simp: runFCM_def Let_def)
  have 4: "data \<noteq> [] \<and> clusterCount cfg \<le> length data \<and> (\<exists>d. uniformDim d data) \<and>
        mset shuffled = mset data \<longrightarrow> (\<exists>res. runFCM data cfg shuffled = Inr res)"
  proof (intro impI, elim conjE exE)
    fix d
    assume "data \<noteq> []" "clusterCount cfg \<le> length data" "uniformDim d data"
      and "mset shuffled = mset data"
    moreover from this(4) have "set shuffled \<subseteq> set data" by (metis mset_eq_setD order_refl)
    ultimately show "\<exists>res. runFCM data cfg shuffled = Inr res"
      by (intro runFCM_returns)
  qed
  from 1 2 3 4 show ?thesis by blast
qed

theorem runFCM_invalid_input_witness:
  "runFCM [] DEFAULT_FCM_CONFIG [] = Inl NoData
   \<and> runFCM [mkPoint ''a'' [0], mkPoint ''b'' [1]] DEFAULT_FCM_CONFIG
         [mkPoint ''b'' [1], mkPoint ''a'' [0]] = Inl (TooManyClusters 3 2)
   \<and> (\<exists>res. runFCM [mkPoint ''a'' [0, 5], mkPoint ''b'' [1, 4], mkPoint ''c'' [3, 3]]
               DEFAULT_FCM_CONFIG
               [mkPoint ''c'' [3, 3], mkPoint ''a'' [0, 5], mkPoint ''b'' [1, 4]] = Inr res)"
proof -
  have a: "runFCM [] DEFAULT_FCM_CONFIG [] = Inl NoData"
    using runFCM_invalid_input[of "[]" DEFAULT_FCM_CONFIG "[]"] by simp
  obtain x y where
    "runFCM [mkPoint ''a'' [0], mkPoint ''b'' [1]] DEFAULT_FCM_CONFIG
       [mkPoint ''b'' [1], mkPoint ''a'' [0]] = Inl (TooManyClusters x y)"
    using runFCM_invalid_input[of "[mkPoint ''a'' [0], mkPoint ''b'' [1]]" DEFAULT_FCM_CONFIG
            "[mkPoint ''b'' [1], mkPoint ''a'' [0]]"]
    by (auto simp: DEFAULT_FCM_CONFIG_def)
  moreover from this have "x = 3 \<and> y = 2"
    using runFCM_invalid_input[of "[mkPoint ''a'' [0], mkPoint ''b'' [1]]" DEFAULT_FCM_CONFIG
            "[mkPoint ''b'' [1], mkPoint ''a'' [0]]"]
    by (auto simp: DEFAULT_FCM_CONFIG_def)
  ultimately have b: "runFCM [mkPoint ''a'' [0], mkPoint ''b'' [1]] DEFAULT_FCM_CONFIG
       [mkPoint ''b'' [1], mkPoint ''a'' [0]] = Inl (TooManyClusters 3 2)"
    by simp
  have "uniformDim 2 [mkPoint ''a'' [0, 5], mkPoint ''b'' [1, 4], mkPoint ''c'' [3, 3]]"
    by (simp add: uniformDim_def mkPoint_def)
  then have c: "\<exists>res. runFCM [mkPoint ''a'' [0, 5], mkPoint ''b'' [1, 4], mkPoint ''c'' [3, 3]]
               DEFAULT_FCM_CONFIG
               [mkPoint ''c'' [3, 3], mkPoint ''a'' [0, 5], mkPoint ''b'' [1, 4]] = Inr res"
    using runFCM_invalid_input[of "[mkPoint ''a'' [0, 5], mkPoint ''b'' [1, 4], mkPoint ''c'' [3, 3]]"
            DEFAULT_FCM_CONFIG
            "[mkPoint ''c'' [3, 3], mkPoint ''a'' [0, 5], mkPoint ''b'' [1, 4]]"]
    by (auto simp: DEFAULT_FCM_CONFIG_def)
  from a b c show ?thesis by blast
qed

text \<open>
  C3. The field \<open>convergenceError\<close> is read back from the last history entry, so a run
  without history reports 0 whatever the last \<open>maxChange\<close> was. Two points, two
  clusters seeded on them, one pass: the memberships move from \<open>1/2\<close> to 0 and 1, the last
  \<open>maxChange\<close> is \<open>1/2\<close>, and the result says 0 next to \<open>converged = false\<close>.
\<close>

theorem runFCM_convergenceError_without_history:
  "runFCM [mkPoint ''a'' [0], mkPoint ''b'' [1]]
     \<lparr>clusterCount = 2, fuzziness = 2, maxIterations = 1, tolerance = 0.001,
      trackHistory = False\<rparr>
     [mkPoint ''a'' [0], mkPoint ''b'' [1]] =
   Inr \<lparr>centroids = [[0], [1]], membershipMatrix = [[1, 0], [0, 1]],
        iterationHistory = [], convergenceError = 0, iterationCount = 1,
        clusterAssignments = [0, 1], converged = False\<rparr>
   \<and> maxChangeOf [[1, 0], [0, 1]] [[1 / 2, 1 / 2], [1 / 2, 1 / 2]] 2 2 = 1 / 2"
proof -
  let ?data = "[mkPoint ''a'' [0], mkPoint ''b'' [1]]"
  let ?cfg = "\<lparr>clusterCount = 2, fuzziness = 2, maxIterations = 1, tolerance = 0.001,
               trackHistory = False\<rparr>"
  let ?st0 = "\<lparr>ls_centroids = [[0], [1]],
      ls_memberships = [[1 / 2, 1 / 2], [1 / 2, 1 / 2]],
      ls_iterationHistory = [], ls_converged = False, ls_iteration = 0,
      ls_prevMemberships = [[1 / 2, 1 / 2], [1 / 2, 1 / 2]]\<rparr>"
  let ?st1 = "\<lparr>ls_centroids = [[0], [1]], ls_memberships = [[1, 0], [0, 1]],
      ls_iterationHistory = [], ls_converged = False, ls_iteration = 1,
      ls_prevMemberships = [[1, 0], [0, 1]]\<rparr>"
  have step: "fcmStep ?data ?cfg ?st0 = Inr ?st1"
    by (simp add: fcmStep_def mkPoint_def Let_def euclideanDistance_def normalizeRow_def
          newCentroid_def maxChangeOf_def Math_pow_def eval_nat_numeral)
  have "fcmLoop ?data ?cfg ?st0 = fcmLoop ?data ?cfg ?st1"
    by (rule fcmLoop_continue[OF _ _ step]) simp_all
  also have "\<dots> = Inr ?st1"
    by (rule fcmLoop_stop) simp
  finally have loop: "fcmLoop ?data ?cfg ?st0 = Inr ?st1" .
  have "runFCM ?data ?cfg ?data =
   Inr \<lparr>centroids = [[0], [1]], membershipMatrix = [[1, 0], [0, 1]],
        iterationHistory = [], convergenceError = 0, iterationCount = 1,
        clusterAssignments = [0, 1], converged = False\<rparr>"
    using loop
    by (simp add: runFCM_def Let_def initializeCentroids_def mkPoint_def argmaxRow_def
          eval_nat_numeral)
  moreover have "maxChangeOf [[1, 0], [0, 1]] [[1 / 2, 1 / 2], [1 / 2, 1 / 2]] 2 2 = 1 / 2"
    by (simp add: maxChangeOf_def eval_nat_numeral)
  ultimately show ?thesis by blast
qed

text \<open>With history the field is right: after at least one pass it is the error of the
  last pass, the one the convergence flag was decided on.\<close>

lemma fcmStep_history:
  assumes "trackHistory cfg" "fcmStep data cfg st = Inr st'"
  shows "ls_iterationHistory st' \<noteq> []
       \<and> it_membershipMatrix (last (ls_iterationHistory st')) = ls_memberships st'
       \<and> it_convergenceError (last (ls_iterationHistory st')) =
           maxChangeOf (ls_memberships st') (ls_prevMemberships st) (length data)
             (clusterCount cfg)
       \<and> ls_converged st' =
           (it_convergenceError (last (ls_iterationHistory st')) < tolerance cfg)"
  using assms by (auto simp: fcmStep_def Let_def split: sum.splits)

lemma fcmLoop_history:
  "trackHistory cfg \<Longrightarrow> historyOk cfg st \<Longrightarrow> fcmLoop data cfg st = Inr st' \<Longrightarrow>
   historyOk cfg st'"
proof (induction data cfg st rule: fcmLoop.induct)
  case (1 data cfg st)
  show ?case
  proof (cases "ls_iteration st < maxIterations cfg \<and> \<not> ls_converged st")
    case False
    then have "fcmLoop data cfg st = Inr st" by (subst fcmLoop.simps) auto
    with "1.prems" show ?thesis by simp
  next
    case True
    with "1.prems"(3) obtain st1 where
      step: "fcmStep data cfg st = Inr st1" and rest: "fcmLoop data cfg st1 = Inr st'"
      by (auto simp: fcmLoop.simps[of data cfg st] split: sum.splits)
    have "historyOk cfg st1"
      using fcmStep_history[OF "1.prems"(1) step] by (simp add: historyOk_def)
    with "1.IH"[OF True step "1.prems"(1) _ rest] show ?thesis .
  qed
qed

lemma runFCM_convergenceError_with_history:
  assumes "trackHistory cfg" "runFCM data cfg shuffled = Inr res" "iterationCount res > 0"
  shows "iterationHistory res \<noteq> []
       \<and> convergenceError res = it_convergenceError (last (iterationHistory res))
       \<and> it_membershipMatrix (last (iterationHistory res)) = membershipMatrix res
       \<and> converged res = (convergenceError res < tolerance cfg)"
proof -
  let ?k = "clusterCount cfg"
  let ?st0 = "\<lparr>ls_centroids = initializeCentroids shuffled ?k,
              ls_memberships = map (\<lambda>_. replicate ?k (1 / real ?k)) data,
              ls_iterationHistory = [], ls_converged = False, ls_iteration = 0,
              ls_prevMemberships = map (\<lambda>_. replicate ?k (1 / real ?k)) data\<rparr>"
  from assms(2) obtain st where loop: "fcmLoop data cfg ?st0 = Inr st"
    and res: "membershipMatrix res = ls_memberships st"
             "iterationHistory res = ls_iterationHistory st"
             "iterationCount res = ls_iteration st" "converged res = ls_converged st"
             "convergenceError res =
                (if trackHistory cfg \<and> length (ls_iterationHistory st) > 0
                 then it_convergenceError (last (ls_iterationHistory st)) else 0)"
    by (auto simp: runFCM_def Let_def split: if_splits sum.splits)
  have "historyOk cfg ?st0" by (simp add: historyOk_def)
  with assms(1) have "historyOk cfg st" using loop by (rule fcmLoop_history)
  with assms(1,3) show ?thesis by (simp add: historyOk_def res)
qed

section \<open>Fuzzy C-Means solver on the store: which arrays it writes\<close>
















end
